theory Spec2Isabelle
  imports Complex_Main "HOL-Library.Word" "HOL-Library.Signed_Division"
begin

unbundle bit_operations_syntax

section \<open>Data model of \<open>bmp_converter.cpp\<close> and \<open>bmp_file_tester.cpp\<close>\<close>

text \<open>
  The four structs of the source are declared under \<open>#pragma pack(push, 1)\<close>: their
  memory image is the sequence of their fields, least significant byte first (the source
  relies on a little-endian machine, see the comment above \<open>BMP_SIGNATURE\<close>).
\<close>

type_synonym byte = "8 word"

record bitmap_file_header =
  bf_type :: "16 word"
  bf_size :: "32 word"
  bf_reserved1 :: "16 word"
  bf_reserved2 :: "16 word"
  bf_off_bits :: "32 word"

text \<open>
  \<open>bi_width\<close>, \<open>bi_height\<close> and the two resolutions are \<open>std::int32_t\<close>: 32-bit words
  that are read with \<open>sint\<close>.
\<close>

record bitmap_info_header =
  bi_size :: "32 word"
  bi_width :: "32 word"
  bi_height :: "32 word"
  bi_planes :: "16 word"
  bi_bit_count :: "16 word"
  bi_compression :: "32 word"
  bi_size_image :: "32 word"
  bi_x_pels_per_meter :: "32 word"
  bi_y_pels_per_meter :: "32 word"
  bi_clr_used :: "32 word"
  bi_clr_important :: "32 word"

record rgb_quad =
  q_blue :: byte
  q_green :: byte
  q_red :: byte
  q_reserved :: byte

record rgb_triple =
  t_blue :: byte
  t_green :: byte
  t_red :: byte

subsection \<open>Memory images of the packed structs\<close>

definition u16_le :: "byte \<Rightarrow> byte \<Rightarrow> 16 word" where
  "u16_le b0 b1 = ucast b0 OR push_bit 8 (ucast b1)"

definition u32_le :: "byte \<Rightarrow> byte \<Rightarrow> byte \<Rightarrow> byte \<Rightarrow> 32 word" where
  "u32_le b0 b1 b2 b3 =
     ucast b0 OR push_bit 8 (ucast b1) OR push_bit 16 (ucast b2) OR push_bit 24 (ucast b3)"

definition bytes_of_u16 :: "16 word \<Rightarrow> byte list" where
  "bytes_of_u16 w = [ucast w, ucast (drop_bit 8 w)]"

definition bytes_of_u32 :: "32 word \<Rightarrow> byte list" where
  "bytes_of_u32 w = [ucast w, ucast (drop_bit 8 w), ucast (drop_bit 16 w), ucast (drop_bit 24 w)]"

text \<open>\<open>sizeof(bitmap_file_header)\<close>, \<open>sizeof(bitmap_info_header)\<close>, \<open>sizeof(rgb_quad)\<close>
  and \<open>sizeof(std::pair<rgb_triple, rgb_triple>)\<close>.\<close>

definition sizeof_file_header :: nat where
  "sizeof_file_header = 14"

definition sizeof_info_header :: nat where
  "sizeof_info_header = 40"

definition sizeof_rgb_quad :: nat where
  "sizeof_rgb_quad = 4"

definition sizeof_pixel_pair :: nat where
  "sizeof_pixel_pair = 6"

definition file_header_of_bytes :: "byte list \<Rightarrow> bitmap_file_header" where
  "file_header_of_bytes b =
     \<lparr> bf_type = u16_le (b ! 0) (b ! 1),
       bf_size = u32_le (b ! 2) (b ! 3) (b ! 4) (b ! 5),
       bf_reserved1 = u16_le (b ! 6) (b ! 7),
       bf_reserved2 = u16_le (b ! 8) (b ! 9),
       bf_off_bits = u32_le (b ! 10) (b ! 11) (b ! 12) (b ! 13) \<rparr>"

definition bytes_of_file_header :: "bitmap_file_header \<Rightarrow> byte list" where
  "bytes_of_file_header h =
     bytes_of_u16 (bf_type h) @ bytes_of_u32 (bf_size h) @ bytes_of_u16 (bf_reserved1 h) @
     bytes_of_u16 (bf_reserved2 h) @ bytes_of_u32 (bf_off_bits h)"

definition info_header_of_bytes :: "byte list \<Rightarrow> bitmap_info_header" where
  "info_header_of_bytes b =
     \<lparr> bi_size = u32_le (b ! 0) (b ! 1) (b ! 2) (b ! 3),
       bi_width = u32_le (b ! 4) (b ! 5) (b ! 6) (b ! 7),
       bi_height = u32_le (b ! 8) (b ! 9) (b ! 10) (b ! 11),
       bi_planes = u16_le (b ! 12) (b ! 13),
       bi_bit_count = u16_le (b ! 14) (b ! 15),
       bi_compression = u32_le (b ! 16) (b ! 17) (b ! 18) (b ! 19),
       bi_size_image = u32_le (b ! 20) (b ! 21) (b ! 22) (b ! 23),
       bi_x_pels_per_meter = u32_le (b ! 24) (b ! 25) (b ! 26) (b ! 27),
       bi_y_pels_per_meter = u32_le (b ! 28) (b ! 29) (b ! 30) (b ! 31),
       bi_clr_used = u32_le (b ! 32) (b ! 33) (b ! 34) (b ! 35),
       bi_clr_important = u32_le (b ! 36) (b ! 37) (b ! 38) (b ! 39) \<rparr>"

definition bytes_of_info_header :: "bitmap_info_header \<Rightarrow> byte list" where
  "bytes_of_info_header h =
     bytes_of_u32 (bi_size h) @ bytes_of_u32 (bi_width h) @ bytes_of_u32 (bi_height h) @
     bytes_of_u16 (bi_planes h) @ bytes_of_u16 (bi_bit_count h) @
     bytes_of_u32 (bi_compression h) @ bytes_of_u32 (bi_size_image h) @
     bytes_of_u32 (bi_x_pels_per_meter h) @ bytes_of_u32 (bi_y_pels_per_meter h) @
     bytes_of_u32 (bi_clr_used h) @ bytes_of_u32 (bi_clr_important h)"

definition bytes_of_rgb_quad :: "rgb_quad \<Rightarrow> byte list" where
  "bytes_of_rgb_quad q = [q_blue q, q_green q, q_red q, q_reserved q]"

text \<open>The image of \<open>std::pair<rgb_triple, rgb_triple>\<close>: \<open>first\<close> in bytes 0 to 2,
  \<open>second\<close> in bytes 3 to 5.\<close>

definition pixel_pair_of_bytes :: "byte list \<Rightarrow> rgb_triple \<times> rgb_triple" where
  "pixel_pair_of_bytes b =
     (\<lparr> t_blue = b ! 0, t_green = b ! 1, t_red = b ! 2 \<rparr>,
      \<lparr> t_blue = b ! 3, t_green = b ! 4, t_red = b ! 5 \<rparr>)"

subsection \<open>Constants\<close>

definition BMP_SIGNATURE :: "16 word" where
  "BMP_SIGNATURE = 0x4D42"

definition target_bitcount :: "32 word" where
  "target_bitcount = 4"

subsection \<open>The input stream\<close>

text \<open>
  A \<open>std::ifstream\<close> that was opened: the bytes not yet extracted, and whether the
  stream is still \<open>good()\<close>. \<open>read(p, n)\<close> on a stream that is not good extracts
  nothing; on a good stream with fewer than \<open>n\<close> bytes left it extracts what is left and
  sets \<open>failbit | eofbit\<close>. The bytes of the destination that were not extracted keep what
  the destination held before the call: \<open>mem i\<close> is byte \<open>i\<close> of the destination
  before the call.
\<close>

record istream =
  remaining :: "byte list"
  good :: bool

definition stream_read :: "nat \<Rightarrow> (nat \<Rightarrow> byte) \<Rightarrow> istream \<Rightarrow> byte list \<times> istream" where
  "stream_read n mem s =
     (if \<not> good s then (map mem [0..<n], s)
      else if n \<le> length (remaining s)
        then (take n (remaining s), s\<lparr>remaining := drop n (remaining s)\<rparr>)
      else (remaining s @ map mem [length (remaining s)..<n],
            \<lparr>remaining = [], good = False\<rparr>))"

text \<open>A value-initialised object: \<open>std::pair<rgb_triple, rgb_triple> pixels;\<close> runs the
  default constructor of \<open>std::pair\<close>, which value-initialises both members.\<close>

definition zero_mem :: "nat \<Rightarrow> byte" where
  "zero_mem i = 0"

section \<open>Colour quantiser (\<open>namespace utils\<close>)\<close>

text \<open>
  \<open>color_distance\<close>: the operands of each subtraction are \<open>std::uint8_t\<close> promoted to
  \<open>int\<close>; \<open>std::pow\<close>, the sum and \<open>std::sqrt\<close> are in \<open>double\<close>. Every
  intermediate value is an integer below \<open>2 ^ 53\<close>, hence exact; the square root is taken
  here over the reals. (IEEE \<open>sqrt\<close> is correctly rounded, hence monotone, and two
  different integers up to \<open>3 * 255\<^sup>2\<close> have square roots further apart than the
  spacing of \<open>double\<close>, so the comparison of two distances is the one made here.)
\<close>

definition color_distance :: "rgb_triple \<Rightarrow> rgb_quad \<Rightarrow> real" where
  "color_distance color1 color2 =
     sqrt ((real_of_int (uint (q_blue color2) - uint (t_blue color1)))\<^sup>2 +
           (real_of_int (uint (q_green color2) - uint (t_green color1)))\<^sup>2 +
           (real_of_int (uint (q_red color2) - uint (t_red color1)))\<^sup>2)"

text \<open>
  \<open>std::ranges::min_element\<close>: the position of the first element \<open>x\<close> for which no
  element \<open>y\<close> has \<open>cmp y x\<close>. The loop keeps the position \<open>smallest\<close> of the
  smallest element seen so far and replaces it by \<open>i\<close> only when \<open>cmp (*i) (*smallest)\<close>. On an empty range it returns \<open>last\<close>, which is position 0.
\<close>

fun min_element_loop :: "('a \<Rightarrow> 'a \<Rightarrow> bool) \<Rightarrow> nat \<Rightarrow> 'a \<Rightarrow> nat \<Rightarrow> 'a list \<Rightarrow> nat" where
  "min_element_loop cmp smallest sx i [] = smallest"
| "min_element_loop cmp smallest sx i (x # xs) =
     (if cmp x sx then min_element_loop cmp i x (Suc i) xs
      else min_element_loop cmp smallest sx (Suc i) xs)"

definition min_element :: "('a \<Rightarrow> 'a \<Rightarrow> bool) \<Rightarrow> 'a list \<Rightarrow> nat" where
  "min_element cmp xs =
     (case xs of [] \<Rightarrow> 0 | x # rest \<Rightarrow> min_element_loop cmp 0 x 1 rest)"

text \<open>The lambda \<open>distance_to_color\<close> and the cast of the position to \<open>std::byte\<close>.\<close>

definition distance_to_color :: "rgb_triple \<Rightarrow> rgb_quad \<Rightarrow> rgb_quad \<Rightarrow> bool" where
  "distance_to_color color lhs rhs \<longleftrightarrow> color_distance color lhs < color_distance color rhs"

definition find_closest_color :: "rgb_triple \<Rightarrow> rgb_quad list \<Rightarrow> byte" where
  "find_closest_color color pal = of_nat (min_element (distance_to_color color) pal)"

text \<open>
  The measure the specification compares colours by: the squared Euclidean distance
  between a pixel and a palette entry, over blue, green and red.
\<close>

definition sq_dist :: "rgb_triple \<Rightarrow> rgb_quad \<Rightarrow> int" where
  "sq_dist c p =
     (uint (q_blue p) - uint (t_blue c))\<^sup>2 + (uint (q_green p) - uint (t_green c))\<^sup>2 +
     (uint (q_red p) - uint (t_red c))\<^sup>2"

section \<open>The palette\<close>

definition quad :: "byte \<Rightarrow> byte \<Rightarrow> byte \<Rightarrow> byte \<Rightarrow> rgb_quad" where
  "quad b g r x = \<lparr> q_blue = b, q_green = g, q_red = r, q_reserved = x \<rparr>"

definition palette :: "rgb_quad list" where
  "palette =
     [ quad 0x00 0x00 0x00 0x00,
       quad 0x00 0x00 0xFF 0x00,
       quad 0x00 0xA1 0xFF 0x00,
       quad 0x9F 0xA0 0xFF 0x00,
       quad 0x00 0xFF 0xFF 0x00,
       quad 0x00 0xA0 0xA3 0x00,
       quad 0x00 0xA1 0x00 0x00,
       quad 0x00 0xFF 0x00 0x00,
       quad 0x9D 0xFF 0xA0 0x00,
       quad 0x9B 0x00 0x00 0x00,
       quad 0xFF 0x00 0x00 0x00,
       quad 0xFF 0x00 0xA2 0x00,
       quad 0xFF 0x00 0xFF 0x00,
       quad 0xFF 0xFF 0x00 0x00,
       quad 0x9F 0xA1 0xA2 0x00,
       quad 0xFF 0xFF 0xFF 0x00 ]"

text \<open>\<open>palette.data()\<close> written as \<open>sizeof(palette)\<close> bytes.\<close>

definition palette_bytes :: "byte list" where
  "palette_bytes = concat (map bytes_of_rgb_quad palette)"

section \<open>The converter\<close>

subsection \<open>Header update (\<open>Update file headers for 4-bit depth\<close>)\<close>

text \<open>
  \<open>constants::target_bitcount * bmp_info_header.bi_width / 32\<close> is evaluated in \<open>int\<close>:
  the product wraps to 32 bits and the division truncates towards zero (\<open>sdiv\<close> on
  the signed value) before \<open>std::ceil\<close> sees the value. The ceiling of the quotient, times 4, is converted to
  \<open>std::uint32_t\<close>. (Overflow of the \<open>int\<close> product and the conversion of a negative
  \<open>double\<close> to \<open>std::uint32_t\<close> are undefined in C++; the model wraps around, as
  two's complement hardware does.)
\<close>

definition row_size :: "32 word \<Rightarrow> 32 word" where
  "row_size width =
     word_of_int (\<lceil>real_of_int (sint (target_bitcount * width) sdiv 32)\<rceil> * 4)"

text \<open>
  \<open>row_size * bmp_info_header.bi_height\<close> is a product of \<open>std::uint32_t\<close>; the two
  \<open>sizeof\<close> are added in \<open>std::size_t\<close> and the sum is narrowed to the 32-bit field.
  \<open>bf_off_bits\<close> grows by \<open>sizeof(rgb_quad) * std::pow(2, target_bitcount)\<close>, which is
  the exact \<open>double\<close> 64; the sum is converted back to the 32-bit field (a sum of
  \<open>2 ^ 32\<close> or more is outside the range of that conversion, and the model wraps it).
\<close>

definition pixel_array_size :: "bitmap_info_header \<Rightarrow> 32 word" where
  "pixel_array_size ih = row_size (bi_width ih) * bi_height ih"

definition update_headers ::
  "bitmap_file_header \<Rightarrow> bitmap_info_header \<Rightarrow> bitmap_file_header \<times> bitmap_info_header" where
  "update_headers fh ih =
     (fh\<lparr> bf_size :=
            ucast ((ucast (pixel_array_size ih) :: 64 word) + of_nat sizeof_file_header +
                   of_nat sizeof_info_header),
          bf_off_bits := bf_off_bits fh + of_nat (sizeof_rgb_quad * 2 ^ unat target_bitcount) \<rparr>,
      ih\<lparr> bi_bit_count := ucast target_bitcount \<rparr>)"

text \<open>The three \<open>output_file.write\<close> calls that precede the loops.\<close>

definition write_headers :: "bitmap_file_header \<Rightarrow> bitmap_info_header \<Rightarrow> byte list" where
  "write_headers fh ih = bytes_of_file_header fh @ bytes_of_info_header ih @ palette_bytes"

subsection \<open>The pixel loops\<close>

text \<open>
  One iteration of the inner loop: read \<open>sizeof(pixels)\<close> bytes into the value-initialised
  pair, quantise both pixels, and write one byte, the first index in the high nibble
  (\<open>operator<<\<close> of \<open>std::byte\<close> keeps the low 8 bits).
\<close>

definition two_pixels :: "rgb_triple \<times> rgb_triple \<Rightarrow> byte" where
  "two_pixels pixels =
     push_bit 4 (find_closest_color (fst pixels) palette) OR
     find_closest_color (snd pixels) palette"

definition convert_pair :: "istream \<times> byte list \<Rightarrow> istream \<times> byte list" where
  "convert_pair st =
     (let (buf, input') = stream_read sizeof_pixel_pair zero_mem (fst st)
      in (input', snd st @ [two_pixels (pixel_pair_of_bytes buf)]))"

text \<open>
  The counters \<open>row\<close> and \<open>column\<close> are \<open>std::size_t\<close>; the bounds \<open>bi_height\<close> and
  \<open>bi_width\<close> are converted to \<open>std::size_t\<close> for the comparison (sign extension to 64
  bits, done by the caller below). \<open>column += 2\<close> wraps around, so the inner loop need not
  terminate: the loops are partial functions, and \<open>None\<close> is a run that never returns.
\<close>

partial_function (option) convert_columns ::
  "64 word \<Rightarrow> 64 word \<Rightarrow> istream \<times> byte list \<Rightarrow> (istream \<times> byte list) option" where
  "convert_columns width column st =
     (if column < width then convert_columns width (column + 2) (convert_pair st)
      else Some st)"

partial_function (option) convert_rows ::
  "64 word \<Rightarrow> 64 word \<Rightarrow> 64 word \<Rightarrow> istream \<times> byte list \<Rightarrow> (istream \<times> byte list) option" where
  "convert_rows width height row st =
     (if row < height
      then Option.bind (convert_columns width 0 st) (convert_rows width height (row + 1))
      else Some st)"

subsection \<open>\<open>convert_bmp_24_to_4_depth\<close>\<close>

text \<open>
  The source reports a failure by a message on \<open>std::cerr\<close> and an early \<open>return\<close>;
  each message is a constructor here: "Failed to open input file", "is not a BMP file",
  "has not 24 bits per pixel", "Failed to open output file".
\<close>

datatype error = OpenInputError | SignatureError | DepthError | OpenOutputError

text \<open>
  The two files the converter touches: what the input path holds (\<open>None\<close>: it cannot be
  opened), what the output path holds (\<open>None\<close>: no such file), and whether the output
  path can be opened for writing.
\<close>

record files =
  input_file :: "byte list option"
  output_file :: "byte list option"
  output_openable :: bool

text \<open>
  Both programs read the two headers right after opening the input, into objects that
  are not initialised: \<open>mem_fh\<close> and \<open>mem_ih\<close> are what their storage held before.
\<close>

definition read_headers ::
  "(nat \<Rightarrow> byte) \<Rightarrow> (nat \<Rightarrow> byte) \<Rightarrow> byte list \<Rightarrow>
   bitmap_file_header \<times> bitmap_info_header \<times> istream" where
  "read_headers mem_fh mem_ih content =
     (let (b1, s1) = stream_read sizeof_file_header mem_fh \<lparr>remaining = content, good = True\<rparr>;
          (b2, s2) = stream_read sizeof_info_header mem_ih s1
      in (file_header_of_bytes b1, info_header_of_bytes b2, s2))"

text \<open>
  The result is \<open>None\<close> when the call never returns, and otherwise the error reported
  (if any) with the files as the call leaves them. Opening the \<open>std::ofstream\<close> creates
  or truncates the output file; every \<open>write\<close> appends to it.
\<close>

definition convert_bmp_24_to_4_depth ::
  "(nat \<Rightarrow> byte) \<Rightarrow> (nat \<Rightarrow> byte) \<Rightarrow> files \<Rightarrow> (error option \<times> files) option" where
  "convert_bmp_24_to_4_depth mem_fh mem_ih fs =
     (case input_file fs of
        None \<Rightarrow> Some (Some OpenInputError, fs)
      | Some content \<Rightarrow>
          (let (bmp_file_header, bmp_info_header, input) = read_headers mem_fh mem_ih content
           in if bf_type bmp_file_header \<noteq> BMP_SIGNATURE then Some (Some SignatureError, fs)
              else if bi_bit_count bmp_info_header \<noteq> 24 then Some (Some DepthError, fs)
              else if \<not> output_openable fs then Some (Some OpenOutputError, fs)
              else
                (let (fh', ih') = update_headers bmp_file_header bmp_info_header
                 in map_option (\<lambda>st. (None, fs\<lparr>output_file := Some (snd st)\<rparr>))
                      (convert_rows (scast (bi_width ih')) (scast (bi_height ih')) 0
                         (input, write_headers fh' ih')))))"

section \<open>The inspector (\<open>main\<close> of \<open>bmp_file_tester.cpp\<close>)\<close>

text \<open>
  On success the program prints width, height and bit count; the model returns the three
  values. Both failures return \<open>EXIT_FAILURE\<close>, after "Failed to open input file" or
  "File is not a BMP file".
\<close>

definition bmp_file_tester ::
  "(nat \<Rightarrow> byte) \<Rightarrow> (nat \<Rightarrow> byte) \<Rightarrow> byte list option \<Rightarrow> error + (int \<times> int \<times> nat)" where
  "bmp_file_tester mem_fh mem_ih inp =
     (case inp of
        None \<Rightarrow> Inl OpenInputError
      | Some content \<Rightarrow>
          (let (bmp_file_header, bmp_info_header, input) = read_headers mem_fh mem_ih content
           in if bf_type bmp_file_header \<noteq> BMP_SIGNATURE then Inl SignatureError
              else Inr (sint (bi_width bmp_info_header), sint (bi_height bmp_info_header),
                        unat (bi_bit_count bmp_info_header))))"

section \<open>Example files\<close>

text \<open>Four bytes that do not start with "BM".\<close>

definition not_a_bmp :: "byte list" where
  "not_a_bmp = [0x50, 0x4B, 0x03, 0x04]"

text \<open>A 1 by 1 bitmap of 32 bits per pixel: both headers and one 4-byte pixel.\<close>

definition bmp_32bit :: "byte list" where
  "bmp_32bit =
     [0x42, 0x4D, 0x3A, 0, 0, 0, 0, 0, 0, 0, 0x36, 0, 0, 0,
      0x28, 0, 0, 0, 1, 0, 0, 0, 1, 0, 0, 0, 1, 0, 0x20, 0, 0, 0, 0, 0, 4, 0, 0, 0,
      0, 0, 0, 0, 0, 0, 0, 0, 0, 0, 0, 0, 0, 0, 0, 0,
      0x10, 0x20, 0x30, 0xFF]"

text \<open>
  A 2 by 1 bitmap of 24 bits per pixel: both headers, a black and a white pixel, and the
  two bytes that pad the 6-byte row to 8. \<open>header_2x1\<close> and \<open>info_2x1\<close> are its
  headers as structs.
\<close>

definition bmp_2x1 :: "byte list" where
  "bmp_2x1 =
     [0x42, 0x4D, 0x3E, 0, 0, 0, 0, 0, 0, 0, 0x36, 0, 0, 0,
      0x28, 0, 0, 0, 2, 0, 0, 0, 1, 0, 0, 0, 1, 0, 0x18, 0, 0, 0, 0, 0, 8, 0, 0, 0,
      0x13, 0x0B, 0, 0, 0x13, 0x0B, 0, 0, 0, 0, 0, 0, 0, 0, 0, 0,
      0, 0, 0, 0xFF, 0xFF, 0xFF, 0, 0]"

definition header_2x1 :: "bitmap_file_header" where
  "header_2x1 =
     \<lparr>bf_type = 0x4D42, bf_size = 62, bf_reserved1 = 0, bf_reserved2 = 0, bf_off_bits = 54\<rparr>"

definition info_2x1 :: "bitmap_info_header" where
  "info_2x1 =
     \<lparr>bi_size = 40, bi_width = 2, bi_height = 1, bi_planes = 1, bi_bit_count = 24,
      bi_compression = 0, bi_size_image = 8, bi_x_pels_per_meter = 0x0B13,
      bi_y_pels_per_meter = 0x0B13, bi_clr_used = 0, bi_clr_important = 0\<rparr>"

text \<open>
  A 1 by 2 bitmap of 24 bits per pixel, 62 bytes. Each stored row is one pixel and one
  padding byte: the first row is white, the second black.
\<close>

definition bmp_1x2 :: "byte list" where
  "bmp_1x2 =
     [0x42, 0x4D, 0x3E, 0, 0, 0, 0, 0, 0, 0, 0x36, 0, 0, 0,
      0x28, 0, 0, 0, 1, 0, 0, 0, 2, 0, 0, 0, 1, 0, 0x18, 0, 0, 0, 0, 0, 8, 0, 0, 0,
      0x13, 0x0B, 0, 0, 0x13, 0x0B, 0, 0, 0, 0, 0, 0, 0, 0, 0, 0,
      0xFF, 0xFF, 0xFF, 0,
      0, 0, 0, 0]"

definition header_1x2 :: "bitmap_file_header" where
  "header_1x2 =
     \<lparr>bf_type = 0x4D42, bf_size = 62, bf_reserved1 = 0, bf_reserved2 = 0, bf_off_bits = 54\<rparr>"

definition info_1x2 :: "bitmap_info_header" where
  "info_1x2 =
     \<lparr>bi_size = 40, bi_width = 1, bi_height = 2, bi_planes = 1, bi_bit_count = 24,
      bi_compression = 0, bi_size_image = 8, bi_x_pels_per_meter = 0x0B13,
      bi_y_pels_per_meter = 0x0B13, bi_clr_used = 0, bi_clr_important = 0\<rparr>"

text \<open>
  A 3 by 2 bitmap of 24 bits per pixel, 78 bytes. Each stored row is three pixels and three
  padding bytes: black, white, red in the first row, three white pixels in the second.
\<close>

definition bmp_3x2 :: "byte list" where
  "bmp_3x2 =
     [0x42, 0x4D, 0x4E, 0, 0, 0, 0, 0, 0, 0, 0x36, 0, 0, 0,
      0x28, 0, 0, 0, 3, 0, 0, 0, 2, 0, 0, 0, 1, 0, 0x18, 0, 0, 0, 0, 0, 0x18, 0, 0, 0,
      0x13, 0x0B, 0, 0, 0x13, 0x0B, 0, 0, 0, 0, 0, 0, 0, 0, 0, 0,
      0, 0, 0, 0xFF, 0xFF, 0xFF, 0, 0, 0xFF, 0, 0, 0,
      0xFF, 0xFF, 0xFF, 0xFF, 0xFF, 0xFF, 0xFF, 0xFF, 0xFF, 0, 0, 0]"


section \<open>Derived quantities\<close>

text \<open>
  What \<open>n\<close> iterations of the inner loop write when the stream holds enough bytes:
  byte \<open>k\<close> packs the two pixels stored in the six bytes that start \<open>6 * k\<close> bytes
  into \<open>bs\<close>.
\<close>

definition packed_pairs :: "nat \<Rightarrow> byte list \<Rightarrow> byte list" where
  "packed_pairs n bs =
     map (\<lambda>k. two_pixels (pixel_pair_of_bytes (take 6 (drop (6 * k) bs)))) [0..<n]"

text \<open>
  The same on any stream: the six bytes of pair \<open>k\<close> are the bytes of \<open>bs\<close> from
  \<open>6 * k\<close> on, and zero where \<open>bs\<close> has ended (a read that comes up short leaves
  the rest of the value-initialised pair as it was, and every later read extracts nothing).
\<close>

definition read_pairs :: "nat \<Rightarrow> byte list \<Rightarrow> byte list" where
  "read_pairs n bs =
     map (\<lambda>k. two_pixels (pixel_pair_of_bytes (take 6 (drop (6 * k) bs @ replicate 6 0))))
       [0..<n]"

text \<open>
  The sizes the specification states, in its own words: a packed row of width \<open>W\<close>
  takes \<open>4 * ceil(W / 8)\<close> bytes, and the file size field is
  \<open>4 * ceil(W / 8) * H + 14 + 40 + 64\<close>.
\<close>

definition spec_row_bytes :: "nat \<Rightarrow> nat" where
  "spec_row_bytes W = 4 * ((W + 7) div 8)"

definition spec_file_size :: "nat \<Rightarrow> nat \<Rightarrow> nat" where
  "spec_file_size W H = 4 * ((W + 7) div 8) * H + 14 + 40 + 64"

text \<open>
  The bytes one run of the inner loop asks for at width \<open>W\<close>, \<open>6 * ceil(W / 2)\<close>,
  and the bytes one row of a 24-bit bitmap occupies in the input with its padding to a
  4-byte boundary, \<open>4 * ceil(3 * W / 4)\<close>.
\<close>

definition converter_row_bytes :: "nat \<Rightarrow> nat" where
  "converter_row_bytes W = 6 * ((W + 1) div 2)"

definition input_row_bytes :: "nat \<Rightarrow> nat" where
  "input_row_bytes W = 4 * ((3 * W + 3) div 4)"

section \<open>Properties of the colour quantiser\<close>

lemma color_distance_sq_dist: "color_distance c p = sqrt (real_of_int (sq_dist c p))"
  by (simp add: color_distance_def sq_dist_def)

lemma distance_to_color_iff: "distance_to_color c l r \<longleftrightarrow> sq_dist c l < sq_dist c r"
  by (simp add: distance_to_color_def color_distance_sq_dist)

text \<open>
  The invariant of the scan: \<open>best\<close> is the position of the first smallest element of
  the part already visited.
\<close>

lemma min_element_loop_spec:
  fixes f :: "'a \<Rightarrow> int"
  assumes cmp: "\<And>x y. cmp x y \<longleftrightarrow> f x < f y"
    and "ys = pre @ xs" and "i = length pre" and "best < i" and "sx = ys ! best"
    and "\<forall>j<i. f sx \<le> f (ys ! j)" and "\<forall>j<best. f sx < f (ys ! j)"
  shows "min_element_loop cmp best sx i xs < length ys \<and>
         (\<forall>j<length ys. f (ys ! min_element_loop cmp best sx i xs) \<le> f (ys ! j)) \<and>
         (\<forall>j<min_element_loop cmp best sx i xs.
             f (ys ! min_element_loop cmp best sx i xs) < f (ys ! j))"
  using assms(2-)
proof (induction xs arbitrary: pre i best sx)
  case Nil
  then show ?case by simp
next
  case (Cons x xs)
  have yi: "ys ! i = x" using Cons.prems by simp
  have split: "ys = (pre @ [x]) @ xs" "Suc i = length (pre @ [x])" using Cons.prems by simp_all
  show ?case
  proof (cases "cmp x sx")
    case True
    then have lt: "f x < f sx" by (simp add: cmp)
    have a: "\<forall>j<Suc i. f x \<le> f (ys ! j)"
      using Cons.prems(5) lt yi by (auto simp: less_Suc_eq intro: less_imp_le order.strict_trans2)
    have b: "\<forall>j<i. f x < f (ys ! j)"
      using Cons.prems(5) lt by (auto intro: order.strict_trans2)
    show ?thesis
      using Cons.IH [OF split, of i x] a b yi True by simp
  next
    case False
    then have ge: "f sx \<le> f x" by (simp add: cmp)
    have a: "\<forall>j<Suc i. f sx \<le> f (ys ! j)"
      using Cons.prems(5) ge yi by (auto simp: less_Suc_eq)
    show ?thesis
      using Cons.IH [OF split, of best sx] a Cons.prems(3,4,6) False by simp
  qed
qed

lemma min_element_spec:
  fixes f :: "'a \<Rightarrow> int"
  assumes cmp: "\<And>x y. cmp x y \<longleftrightarrow> f x < f y" and ne: "ys \<noteq> []"
  shows "min_element cmp ys < length ys \<and>
         (\<forall>j<length ys. f (ys ! min_element cmp ys) \<le> f (ys ! j)) \<and>
         (\<forall>j<min_element cmp ys. f (ys ! min_element cmp ys) < f (ys ! j))"
proof -
  obtain y rest where ys: "ys = y # rest" using ne by (cases ys) auto
  have "min_element_loop cmp 0 y 1 rest < length ys \<and>
         (\<forall>j<length ys. f (ys ! min_element_loop cmp 0 y 1 rest) \<le> f (ys ! j)) \<and>
         (\<forall>j<min_element_loop cmp 0 y 1 rest.
             f (ys ! min_element_loop cmp 0 y 1 rest) < f (ys ! j))"
    by (rule min_element_loop_spec [where pre = "[y]", OF cmp]) (simp_all add: ys)
  then show ?thesis by (simp add: min_element_def ys)
qed

lemma length_palette: "length palette = 16"
  by (simp add: palette_def)

lemma find_closest_color_spec:
  "unat (find_closest_color c palette) < 16 \<and>
   (\<forall>j<16. sq_dist c (palette ! unat (find_closest_color c palette)) \<le> sq_dist c (palette ! j)) \<and>
   (\<forall>j<unat (find_closest_color c palette).
      sq_dist c (palette ! unat (find_closest_color c palette)) < sq_dist c (palette ! j))"
proof -
  let ?r = "min_element (distance_to_color c) palette"
  have ne: "palette \<noteq> []" by (simp add: palette_def)
  have spec: "?r < length palette \<and>
         (\<forall>j<length palette. sq_dist c (palette ! ?r) \<le> sq_dist c (palette ! j)) \<and>
         (\<forall>j<?r. sq_dist c (palette ! ?r) < sq_dist c (palette ! j))"
    by (rule min_element_spec [OF distance_to_color_iff ne])
  then have "?r < 16" by (simp add: length_palette)
  then have "unat (find_closest_color c palette) = ?r"
    by (simp add: find_closest_color_def unat_of_nat)
  then show ?thesis using spec by (simp add: length_palette)
qed

text \<open>
  Claim C9. \<open>find_closest_color\<close> over the 16-entry palette is total and deterministic:
  it is a function of the colour alone (it reads nothing but its two arguments, and the
  palette is a constant), defined for every colour, and its value is an index below 16.
\<close>

theorem find_closest_color_total:
  "unat (find_closest_color c palette) < 16"
  using find_closest_color_spec [of c] by simp

text \<open>
  Claim C3. For every colour, \<open>find_closest_color\<close> returns the least index below 16
  whose palette entry is at minimal squared Euclidean distance from the colour: no entry is
  closer than the chosen one and every entry before it is strictly farther. Hence an entry
  strictly closer than all the others is the one chosen, and of two equidistant
  entries the higher-indexed one is never chosen.
\<close>

theorem find_closest_color_least_nearest:
  "unat (find_closest_color c palette) < 16 \<and>
   (\<forall>j<16. sq_dist c (palette ! unat (find_closest_color c palette)) \<le> sq_dist c (palette ! j)) \<and>
   (\<forall>j<unat (find_closest_color c palette).
      sq_dist c (palette ! unat (find_closest_color c palette)) < sq_dist c (palette ! j)) \<and>
   (\<forall>p<16. (\<forall>j<16. j \<noteq> p \<longrightarrow> sq_dist c (palette ! p) < sq_dist c (palette ! j)) \<longrightarrow>
      unat (find_closest_color c palette) = p) \<and>
   (\<forall>i j. i < j \<and> j < 16 \<and> sq_dist c (palette ! i) = sq_dist c (palette ! j) \<longrightarrow>
      unat (find_closest_color c palette) \<noteq> j)"
proof -
  let ?r = "unat (find_closest_color c palette)"
  have r: "?r < 16"
    and least: "\<forall>j<16. sq_dist c (palette ! ?r) \<le> sq_dist c (palette ! j)"
    and first: "\<forall>j<?r. sq_dist c (palette ! ?r) < sq_dist c (palette ! j)"
    using find_closest_color_spec [of c] by simp_all
  have strict: "\<forall>p<16. (\<forall>j<16. j \<noteq> p \<longrightarrow> sq_dist c (palette ! p) < sq_dist c (palette ! j)) \<longrightarrow>
      ?r = p"
  proof (intro allI impI)
    fix p :: nat
    assume p: "p < 16"
      and closer: "\<forall>j<16. j \<noteq> p \<longrightarrow> sq_dist c (palette ! p) < sq_dist c (palette ! j)"
    show "?r = p"
    proof (rule ccontr)
      assume "?r \<noteq> p"
      then have "sq_dist c (palette ! p) < sq_dist c (palette ! ?r)" using closer r by simp
      moreover have "sq_dist c (palette ! ?r) \<le> sq_dist c (palette ! p)" using least p by simp
      ultimately show False by simp
    qed
  qed
  have tie: "\<forall>i j. i < j \<and> j < 16 \<and> sq_dist c (palette ! i) = sq_dist c (palette ! j) \<longrightarrow> ?r \<noteq> j"
  proof (intro allI impI notI)
    fix i j :: nat
    assume a: "i < j \<and> j < 16 \<and> sq_dist c (palette ! i) = sq_dist c (palette ! j)" and e: "?r = j"
    from a e have "i < ?r" by simp
    with first have "sq_dist c (palette ! ?r) < sq_dist c (palette ! i)" by blast
    then show False using a e by simp
  qed
  show ?thesis using r least first strict tie by blast
qed

text \<open>
  The colour (blue 0, green 208, red 255) is at squared distance 2209 from both orange
  (index 2) and yellow (index 4) and farther from every other entry: index 2 is returned.
\<close>

theorem find_closest_color_least_nearest_witness:
  "find_closest_color \<lparr>t_blue = 0, t_green = 208, t_red = 255\<rparr> palette = 2 \<and>
   sq_dist \<lparr>t_blue = 0, t_green = 208, t_red = 255\<rparr> (palette ! 2) =
     sq_dist \<lparr>t_blue = 0, t_green = 208, t_red = 255\<rparr> (palette ! 4) \<and>
   unat (find_closest_color \<lparr>t_blue = 0, t_green = 208, t_red = 255\<rparr> palette) \<noteq> 4 \<and>
   sq_dist \<lparr>t_blue = 0, t_green = 208, t_red = 255\<rparr> (palette ! 2)
     \<le> sq_dist \<lparr>t_blue = 0, t_green = 208, t_red = 255\<rparr> (palette ! 15) \<and>
   sq_dist \<lparr>t_blue = 0, t_green = 208, t_red = 255\<rparr> (palette ! 2)
     < sq_dist \<lparr>t_blue = 0, t_green = 208, t_red = 255\<rparr> (palette ! 1)"
proof -
  let ?c = "\<lparr>t_blue = 0, t_green = 208, t_red = 255\<rparr>"
  note th = find_closest_color_least_nearest [of ?c]
  have e: "find_closest_color ?c palette = 2"
    by (simp add: find_closest_color_def min_element_def palette_def quad_def
        distance_to_color_iff sq_dist_def)
  have t: "sq_dist ?c (palette ! 2) = sq_dist ?c (palette ! 4)"
    by (simp add: palette_def quad_def sq_dist_def)
  have l: "sq_dist ?c (palette ! unat (find_closest_color ?c palette))
      \<le> sq_dist ?c (palette ! 15)"
    by (rule th [THEN conjunct2, THEN conjunct1, rule_format]) simp
  have f: "sq_dist ?c (palette ! unat (find_closest_color ?c palette))
      < sq_dist ?c (palette ! 1)"
    by (rule th [THEN conjunct2, THEN conjunct2, THEN conjunct1, rule_format]) (simp add: e)
  have n: "unat (find_closest_color ?c palette) \<noteq> 4"
    by (rule th [THEN conjunct2, THEN conjunct2, THEN conjunct2, THEN conjunct2, rule_format,
          of 2 4]) (simp add: t)
  show ?thesis
    using e t l f n by simp
qed

section \<open>Memory images: reading back what was written\<close>

lemma bit_byte_high: "8 \<le> m \<Longrightarrow> \<not> bit (a :: 8 word) m"
  using bit_imp_le_length [of a m] by auto

lemma bytes_of_u16_le: "bytes_of_u16 (u16_le a b) = [a, b]"
  unfolding bytes_of_u16_def u16_le_def
  by (auto intro!: bit_word_eqI simp: bit_simps bit_byte_high)

lemma u16_le_bytes: "u16_le (ucast w) (ucast (drop_bit 8 w)) = w"
  unfolding u16_le_def
  by (rule bit_word_eqI) (auto simp: bit_simps not_less dest: bit_imp_le_length)

lemma bytes_of_u32_le: "bytes_of_u32 (u32_le a b c d) = [a, b, c, d]"
  unfolding bytes_of_u32_def u32_le_def
  by (auto intro!: bit_word_eqI simp: bit_simps bit_byte_high)

lemma u32_le_bytes:
  "u32_le (ucast w) (ucast (drop_bit 8 w)) (ucast (drop_bit 16 w)) (ucast (drop_bit 24 w)) = w"
  unfolding u32_le_def
  apply (rule bit_word_eqI)
  subgoal for n
    apply (simp add: bit_simps)
    apply (cases "n < 8"; cases "n < 16"; cases "n < 24"; simp add: not_less)
    apply arith+
    done
  done

lemma u16_le_signature: "u16_le b0 b1 = BMP_SIGNATURE \<longleftrightarrow> b0 = 0x42 \<and> b1 = 0x4D"
proof
  assume "u16_le b0 b1 = BMP_SIGNATURE"
  then have "bytes_of_u16 (u16_le b0 b1) = bytes_of_u16 0x4D42" by (simp add: BMP_SIGNATURE_def)
  then show "b0 = 0x42 \<and> b1 = 0x4D" by (simp add: bytes_of_u16_le) (simp add: bytes_of_u16_def)
next
  assume "b0 = 0x42 \<and> b1 = 0x4D"
  then show "u16_le b0 b1 = BMP_SIGNATURE" by (simp add: u16_le_def BMP_SIGNATURE_def)
qed

section \<open>Rejected inputs\<close>

lemma read_headers_bf_type:
  "bf_type (fst (read_headers m1 m2 (b0 # b1 # rest))) = u16_le b0 b1"
  by (simp add: read_headers_def stream_read_def sizeof_file_header_def sizeof_info_header_def
      file_header_of_bytes_def Let_def split: prod.splits if_splits)

text \<open>
  Claim C6. If the input can be opened and its first two bytes are not 0x42 0x4D, the
  inspector and the converter both report the signature error, whatever follows in the
  stream and whatever the uninitialised header objects held. The converter leaves the
  files as they were: no output file is created, and the answer is the signature error
  even when the output path could not have been opened, since the output is opened only
  after the check.
\<close>

theorem signature_rejected:
  assumes "input_file fs = Some (b0 # b1 # rest)" and "b0 \<noteq> 0x42 \<or> b1 \<noteq> 0x4D"
  shows "bmp_file_tester mem_fh mem_ih (input_file fs) = Inl SignatureError \<and>
         convert_bmp_24_to_4_depth mem_fh mem_ih fs = Some (Some SignatureError, fs)"
proof -
  have "bf_type (fst (read_headers mem_fh mem_ih (b0 # b1 # rest))) \<noteq> BMP_SIGNATURE"
    using assms(2) by (simp add: read_headers_bf_type u16_le_signature)
  then show ?thesis
    using assms(1)
    by (auto simp add: bmp_file_tester_def convert_bmp_24_to_4_depth_def split: prod.splits)
qed

theorem signature_rejected_witness:
  "bmp_file_tester zero_mem zero_mem (Some not_a_bmp) = Inl SignatureError \<and>
   convert_bmp_24_to_4_depth zero_mem zero_mem
     \<lparr>input_file = Some not_a_bmp, output_file = None, output_openable = True\<rparr> =
   Some (Some SignatureError,
     \<lparr>input_file = Some not_a_bmp, output_file = None, output_openable = True\<rparr>)"
  using signature_rejected
    [of "\<lparr>input_file = Some not_a_bmp, output_file = None, output_openable = True\<rparr>"
      "0x50" "0x4B" "[0x03, 0x04]" zero_mem zero_mem]
  by (simp add: not_a_bmp_def)

text \<open>
  Claim C7. If the bit count read from the input is not 24, the converter fails and
  leaves the files as they were (nothing is written, and the output path is never
  opened: the answer does not depend on whether it could be). The depth check comes after
  the signature check: the error is the depth error when the signature is right, and the
  signature error otherwise.
\<close>

theorem depth_rejected:
  assumes "input_file fs = Some content"
    and "read_headers mem_fh mem_ih content = (fh, ih, s)"
    and "bi_bit_count ih \<noteq> 24"
  shows "convert_bmp_24_to_4_depth mem_fh mem_ih fs =
         Some (Some (if bf_type fh = BMP_SIGNATURE then DepthError else SignatureError), fs)"
  using assms by (simp add: convert_bmp_24_to_4_depth_def)

lemma read_headers_bmp_32bit:
  "bf_type (fst (read_headers zero_mem zero_mem bmp_32bit)) = BMP_SIGNATURE \<and>
   bi_bit_count (fst (snd (read_headers zero_mem zero_mem bmp_32bit))) = 32"
  by (simp add: read_headers_def stream_read_def sizeof_file_header_def sizeof_info_header_def
      bmp_32bit_def file_header_of_bytes_def info_header_of_bytes_def u16_le_def u32_le_def
      BMP_SIGNATURE_def)

theorem depth_rejected_witness:
  "convert_bmp_24_to_4_depth zero_mem zero_mem
     \<lparr>input_file = Some bmp_32bit, output_file = None, output_openable = True\<rparr> =
   Some (Some DepthError,
     \<lparr>input_file = Some bmp_32bit, output_file = None, output_openable = True\<rparr>)"
proof -
  obtain fh ih s where rh: "read_headers zero_mem zero_mem bmp_32bit = (fh, ih, s)"
    by (cases "read_headers zero_mem zero_mem bmp_32bit") auto
  have "bf_type fh = BMP_SIGNATURE" and "bi_bit_count ih = 32"
    using read_headers_bmp_32bit rh by simp_all
  then show ?thesis
    using depth_rejected [OF _ rh,
        of "\<lparr>input_file = Some bmp_32bit, output_file = None, output_openable = True\<rparr>"]
    by simp
qed

section \<open>The pixel loops in closed form\<close>

lemma size_t_less_iff:
  "a < 2 ^ 64 \<Longrightarrow> b < 2 ^ 64 \<Longrightarrow> (of_nat a :: 64 word) < of_nat b \<longleftrightarrow> a < b"
  by (simp add: word_less_nat_alt unat_of_nat)

lemma convert_columns_closed:
  "c \<le> w + 1 \<Longrightarrow> w < 2 ^ 63 \<Longrightarrow>
   convert_columns (of_nat w) (of_nat c) st = Some ((convert_pair ^^ ((w + 1 - c) div 2)) st)"
proof (induction "w + 1 - c" arbitrary: c st rule: less_induct)
  case less
  have bounds: "c < 2 ^ 64" "w < 2 ^ 64" using less.prems by simp_all
  show ?case
  proof (cases "c < w")
    case True
    have step: "convert_columns (of_nat w) (of_nat (c + 2)) (convert_pair st) =
        Some ((convert_pair ^^ ((w + 1 - (c + 2)) div 2)) (convert_pair st))"
      using True less.prems by (intro less.hyps) simp_all
    have n: "(w + 1 - c) div 2 = Suc ((w + 1 - (c + 2)) div 2)" using True by simp
    have lt: "(of_nat c :: 64 word) < of_nat w" using True bounds by (simp add: size_t_less_iff)
    have inc: "(of_nat c :: 64 word) + 2 = of_nat (c + 2)" by simp
    have "convert_columns (of_nat w) (of_nat c) st =
          convert_columns (of_nat w) (of_nat c + 2) (convert_pair st)"
      by (subst convert_columns.simps) (simp only: lt if_True)
    also have "\<dots> = Some ((convert_pair ^^ ((w + 1 - (c + 2)) div 2)) (convert_pair st))"
      by (simp only: inc step)
    also have "\<dots> = Some ((convert_pair ^^ ((w + 1 - c) div 2)) st)"
      by (simp only: n funpow_Suc_right o_apply)
    finally show ?thesis .
  next
    case False
    then have z: "(w + 1 - c) div 2 = 0" using less.prems by simp
    have ge: "\<not> (of_nat c :: 64 word) < of_nat w"
      using False bounds by (simp add: size_t_less_iff)
    have "convert_columns (of_nat w) (of_nat c) st = Some st"
      by (subst convert_columns.simps) (simp only: ge if_False)
    then show ?thesis
      by (simp only: z funpow_0)
  qed
qed

lemma convert_rows_closed:
  "r \<le> h \<Longrightarrow> h < 2 ^ 63 \<Longrightarrow> w < 2 ^ 63 \<Longrightarrow>
   convert_rows (of_nat w) (of_nat h) (of_nat r) st =
   Some ((convert_pair ^^ ((h - r) * ((w + 1) div 2))) st)"
proof (induction "h - r" arbitrary: r st)
  case 0
  then have "r = h" by simp
  then show ?case by (subst convert_rows.simps) simp
next
  case (Suc n)
  have bounds: "r < 2 ^ 64" "h < 2 ^ 64" using Suc.prems by simp_all
  have "r < h" using Suc.hyps(2) by simp
  then have lt: "(of_nat r :: 64 word) < of_nat h" using bounds by (simp add: size_t_less_iff)
  have inc: "(of_nat r :: 64 word) + 1 = of_nat (Suc r)" by simp
  have cols: "convert_columns (of_nat w) 0 st = Some ((convert_pair ^^ ((w + 1) div 2)) st)"
    using convert_columns_closed [of 0 w st] Suc.prems by simp
  have rest: "convert_rows (of_nat w) (of_nat h) (of_nat (Suc r)) ((convert_pair ^^ ((w + 1) div 2)) st) =
      Some ((convert_pair ^^ ((h - Suc r) * ((w + 1) div 2))) ((convert_pair ^^ ((w + 1) div 2)) st))"
    using Suc.hyps(2) Suc.prems \<open>r < h\<close> by (intro Suc.hyps(1)) simp_all
  have "h - r = Suc (h - Suc r)" using \<open>r < h\<close> by simp
  then have n: "(h - r) * ((w + 1) div 2) = (h - Suc r) * ((w + 1) div 2) + (w + 1) div 2"
    by simp
  have "convert_rows (of_nat w) (of_nat h) (of_nat r) st =
        Option.bind (convert_columns (of_nat w) 0 st) (convert_rows (of_nat w) (of_nat h) (of_nat r + 1))"
    by (subst convert_rows.simps) (simp only: lt if_True)
  also have "\<dots> = Some ((convert_pair ^^ ((h - Suc r) * ((w + 1) div 2))) ((convert_pair ^^ ((w + 1) div 2)) st))"
    by (simp only: cols inc rest bind.bind_lunit)
  also have "\<dots> = Some ((convert_pair ^^ ((h - r) * ((w + 1) div 2))) st)"
    by (simp only: n funpow_add o_apply)
  finally show ?case .
qed


lemma convert_pair_out_length: "length (snd ((convert_pair ^^ n) st)) = length (snd st) + n"
  by (induction n) (simp_all add: convert_pair_def split: prod.splits)

lemma convert_pair_enough:
  "good s \<Longrightarrow> 6 \<le> length (remaining s) \<Longrightarrow>
   convert_pair (s, out) =
   (s\<lparr>remaining := drop 6 (remaining s)\<rparr>,
    out @ [two_pixels (pixel_pair_of_bytes (take 6 (remaining s)))])"
  by (simp add: convert_pair_def stream_read_def sizeof_pixel_pair_def)

lemma convert_pair_funpow_enough:
  "good s \<Longrightarrow> 6 * n \<le> length (remaining s) \<Longrightarrow>
   (convert_pair ^^ n) (s, out) =
   (s\<lparr>remaining := drop (6 * n) (remaining s)\<rparr>, out @ packed_pairs n (remaining s))"
proof (induction n)
  case 0
  then show ?case by (simp add: packed_pairs_def)
next
  case (Suc n)
  let ?s = "s\<lparr>remaining := drop (6 * n) (remaining s)\<rparr>"
  have IH: "(convert_pair ^^ n) (s, out) = (?s, out @ packed_pairs n (remaining s))"
    using Suc by simp
  have g: "good ?s" and l: "6 \<le> length (remaining ?s)"
    using Suc.prems by simp_all
  have "(convert_pair ^^ Suc n) (s, out) = convert_pair (?s, out @ packed_pairs n (remaining s))"
    by (simp only: funpow.simps o_apply IH)
  also have "\<dots> = (?s\<lparr>remaining := drop 6 (remaining ?s)\<rparr>,
      (out @ packed_pairs n (remaining s)) @
      [two_pixels (pixel_pair_of_bytes (take 6 (remaining ?s)))])"
    by (rule convert_pair_enough [OF g l])
  also have "\<dots> = (s\<lparr>remaining := drop (6 * Suc n) (remaining s)\<rparr>,
      out @ packed_pairs (Suc n) (remaining s))"
    by (simp add: packed_pairs_def add.commute)
  finally show ?case .
qed

lemma convert_columns_prefix:
  assumes "convert_columns w c st = Some y"
  shows "\<exists>d. snd y = snd st @ d"
proof (rule convert_columns.raw_induct
    [where P = "\<lambda>w c st y. \<exists>d. snd y = snd st @ d", OF _ assms], goal_cases)
  case (1 cc width column st y)
  show ?case
  proof (cases "column < width")
    case True
    with 1(2) have "cc width (column + 2) (convert_pair st) = Some y" by simp
    from 1(1) [OF this] obtain d where "snd y = snd (convert_pair st) @ d" ..
    then show ?thesis by (simp add: convert_pair_def split: prod.splits)
  next
    case False
    with 1(2) show ?thesis by simp
  qed
qed

lemma convert_rows_prefix:
  assumes "convert_rows w h r st = Some y"
  shows "\<exists>d. snd y = snd st @ d"
proof (rule convert_rows.raw_induct
    [where P = "\<lambda>w h r st y. \<exists>d. snd y = snd st @ d", OF _ assms], goal_cases)
  case (1 cr width height row st y)
  show ?case
  proof (cases "row < height")
    case True
    with 1(2) obtain st1 where a: "convert_columns width 0 st = Some st1"
      and b: "cr width height (row + 1) st1 = Some y"
      by (auto simp: bind_eq_Some_conv)
    from convert_columns_prefix [OF a] obtain d1 where "snd st1 = snd st @ d1" ..
    moreover from 1(1) [OF b] obtain d2 where "snd y = snd st1 @ d2" ..
    ultimately show ?thesis by simp
  next
    case False
    with 1(2) show ?thesis by simp
  qed
qed

lemma scast_nonneg: "0 \<le> sint (w :: 32 word) \<Longrightarrow> (scast w :: 64 word) = of_nat (nat (sint w))"
  by (simp only: scast_eq of_nat_nat)

lemma sint_bound: "nat (sint (w :: 32 word)) < 2 ^ 63"
  using sint_lt [of w] by simp


lemma read_headers_bmp_2x1:
  "read_headers mem_fh mem_ih bmp_2x1 =
     (header_2x1, info_2x1, \<lparr>remaining = [0, 0, 0, 0xFF, 0xFF, 0xFF, 0, 0], good = True\<rparr>)"
  by (simp add: read_headers_def stream_read_def sizeof_file_header_def sizeof_info_header_def
      bmp_2x1_def file_header_of_bytes_def info_header_of_bytes_def u16_le_def u32_le_def
      header_2x1_def info_2x1_def)

lemma update_headers_2x1:
  "update_headers header_2x1 info_2x1 =
     (header_2x1\<lparr>bf_size := 54, bf_off_bits := 118\<rparr>, info_2x1\<lparr>bi_bit_count := 4\<rparr>)"
  by (simp add: update_headers_def pixel_array_size_def row_size_def target_bitcount_def
      sizeof_file_header_def sizeof_info_header_def sizeof_rgb_quad_def header_2x1_def info_2x1_def)

lemma closest_black: "find_closest_color \<lparr>t_blue = 0, t_green = 0, t_red = 0\<rparr> palette = 0"
  by (simp add: find_closest_color_def min_element_def palette_def quad_def
      distance_to_color_iff sq_dist_def)

lemma closest_white:
  "find_closest_color \<lparr>t_blue = 0xFF, t_green = 0xFF, t_red = 0xFF\<rparr> palette = 15"
  by (simp add: find_closest_color_def min_element_def palette_def quad_def
      distance_to_color_iff sq_dist_def)

lemma convert_rows_2x1:
  "convert_rows 2 1 0 (\<lparr>remaining = [0, 0, 0, 0xFF, 0xFF, 0xFF, 0, 0], good = True\<rparr>, out) =
   Some (\<lparr>remaining = [0, 0], good = True\<rparr>, out @ [0x0F])"
proof -
  have "convert_rows (of_nat 2) (of_nat 1) (of_nat 0)
          (\<lparr>remaining = [0, 0, 0, 0xFF, 0xFF, 0xFF, 0, 0], good = True\<rparr>, out) =
        Some ((convert_pair ^^ ((1 - 0) * ((2 + 1) div 2)))
          (\<lparr>remaining = [0, 0, 0, 0xFF, 0xFF, 0xFF, 0, 0], good = True\<rparr>, out))"
    by (rule convert_rows_closed) simp_all
  then show ?thesis
    by (simp add: convert_pair_enough pixel_pair_of_bytes_def two_pixels_def
        closest_black closest_white)
qed

lemma convert_bmp_2x1:
  "convert_bmp_24_to_4_depth mem_fh mem_ih
     \<lparr>input_file = Some bmp_2x1, output_file = old, output_openable = True\<rparr> =
   Some (None, \<lparr>input_file = Some bmp_2x1,
     output_file = Some (write_headers (header_2x1\<lparr>bf_size := 54, bf_off_bits := 118\<rparr>)
                           (info_2x1\<lparr>bi_bit_count := 4\<rparr>) @ [0x0F]),
     output_openable = True\<rparr>)"
proof -
  have sig: "bf_type header_2x1 = BMP_SIGNATURE" and depth: "bi_bit_count info_2x1 = 24"
    and w: "(scast (bi_width info_2x1) :: 64 word) = 2"
    and h: "(scast (bi_height info_2x1) :: 64 word) = 1"
    by (simp_all add: header_2x1_def info_2x1_def BMP_SIGNATURE_def)
  show ?thesis
    by (simp add: convert_bmp_24_to_4_depth_def read_headers_bmp_2x1 update_headers_2x1
        sig depth w h convert_rows_2x1)
qed

section \<open>Headers written and read back\<close>

lemma length_bytes_of_file_header: "length (bytes_of_file_header h) = 14"
  by (simp add: bytes_of_file_header_def bytes_of_u16_def bytes_of_u32_def)

lemma length_bytes_of_info_header: "length (bytes_of_info_header h) = 40"
  by (simp add: bytes_of_info_header_def bytes_of_u16_def bytes_of_u32_def)

lemma length_palette_bytes: "length palette_bytes = 64"
  by (simp add: palette_bytes_def palette_def bytes_of_rgb_quad_def)

lemma file_header_of_bytes_inverse: "file_header_of_bytes (bytes_of_file_header h @ rest) = h"
  by (simp add: file_header_of_bytes_def bytes_of_file_header_def bytes_of_u16_def
      bytes_of_u32_def u16_le_bytes u32_le_bytes)

lemma info_header_of_bytes_inverse: "info_header_of_bytes (bytes_of_info_header h @ rest) = h"
  by (simp add: info_header_of_bytes_def bytes_of_info_header_def bytes_of_u16_def
      bytes_of_u32_def u16_le_bytes u32_le_bytes)

lemma update_headers_info: "snd (update_headers fh ih) = ih\<lparr>bi_bit_count := 4\<rparr>"
  by (simp add: update_headers_def target_bitcount_def)

lemma read_headers_enough:
  assumes "54 \<le> length content"
  shows "read_headers mem_fh mem_ih content =
     (file_header_of_bytes (take 14 content), info_header_of_bytes (take 40 (drop 14 content)),
      \<lparr>remaining = drop 54 content, good = True\<rparr>)"
proof -
  have a: "stream_read 14 mem_fh \<lparr>remaining = content, good = True\<rparr> =
      (take 14 content, \<lparr>remaining = drop 14 content, good = True\<rparr>)"
    using assms by (simp add: stream_read_def)
  have b: "stream_read 40 mem_ih \<lparr>remaining = drop 14 content, good = True\<rparr> =
      (take 40 (drop 14 content), \<lparr>remaining = drop 54 content, good = True\<rparr>)"
    using assms by (simp add: stream_read_def)
  show ?thesis
    by (simp add: read_headers_def sizeof_file_header_def sizeof_info_header_def a b)
qed

lemma convert_accepted:
  assumes "input_file fs = Some content" and "output_openable fs"
    and "read_headers mem_fh mem_ih content = (fh, ih, s)"
    and "bf_type fh = BMP_SIGNATURE" and "bi_bit_count ih = 24"
  shows "convert_bmp_24_to_4_depth mem_fh mem_ih fs =
         map_option (\<lambda>st. (None, fs\<lparr>output_file := Some (snd st)\<rparr>))
           (convert_rows (scast (bi_width ih)) (scast (bi_height ih)) 0
              (s, write_headers (fst (update_headers fh ih)) (snd (update_headers fh ih))))"
proof -
  obtain fh' ih' where u: "update_headers fh ih = (fh', ih')"
    by (cases "update_headers fh ih") auto
  then have "ih' = ih\<lparr>bi_bit_count := 4\<rparr>" using update_headers_info [of fh ih] by simp
  then have wh: "bi_width ih' = bi_width ih" "bi_height ih' = bi_height ih" by simp_all
  show ?thesis
    unfolding convert_bmp_24_to_4_depth_def
    by (simp only: assms u wh option.case prod.case Let_def fst_conv snd_conv simp_thms if_False
        if_True)
qed

lemma row_output_length:
  "w < 2 ^ 63 \<Longrightarrow>
   map_option (\<lambda>st. length (snd st)) (convert_columns (of_nat w) 0 (s, out)) =
   Some (length out + (w + 1) div 2)"
  using convert_columns_closed [of 0 w "(s, out)"] by (simp add: convert_pair_out_length)

section \<open>The claims about the conversion\<close>

lemma palette_bytes_eq:
  "palette_bytes =
     [0x00, 0x00, 0x00, 0x00,  0x00, 0x00, 0xFF, 0x00,  0x00, 0xA1, 0xFF, 0x00,
      0x9F, 0xA0, 0xFF, 0x00,  0x00, 0xFF, 0xFF, 0x00,  0x00, 0xA0, 0xA3, 0x00,
      0x00, 0xA1, 0x00, 0x00,  0x00, 0xFF, 0x00, 0x00,  0x9D, 0xFF, 0xA0, 0x00,
      0x9B, 0x00, 0x00, 0x00,  0xFF, 0x00, 0x00, 0x00,  0xFF, 0x00, 0xA2, 0x00,
      0xFF, 0x00, 0xFF, 0x00,  0xFF, 0xFF, 0x00, 0x00,  0x9F, 0xA1, 0xA2, 0x00,
      0xFF, 0xFF, 0xFF, 0x00]"
  by (simp add: palette_bytes_def palette_def quad_def bytes_of_rgb_quad_def)

lemma written_file_header_2x1:
  "bytes_of_file_header (header_2x1\<lparr>bf_size := 54, bf_off_bits := 118\<rparr>) =
     [0x42, 0x4D, 0x36, 0, 0, 0, 0, 0, 0, 0, 0x76, 0, 0, 0]"
  by (simp add: bytes_of_file_header_def bytes_of_u16_def bytes_of_u32_def header_2x1_def)

lemma written_info_header_2x1:
  "bytes_of_info_header (info_2x1\<lparr>bi_bit_count := 4\<rparr>) =
     [0x28, 0, 0, 0, 2, 0, 0, 0, 1, 0, 0, 0, 1, 0, 4, 0, 0, 0, 0, 0, 8, 0, 0, 0,
      0x13, 0x0B, 0, 0, 0x13, 0x0B, 0, 0, 0, 0, 0, 0, 0, 0, 0, 0]"
  by (simp add: bytes_of_info_header_def bytes_of_u16_def bytes_of_u32_def info_2x1_def)

text \<open>
  Claim C4. The 2 by 1 bitmap \<open>bmp_2x1\<close> (a black pixel, then a white one) is accepted,
  and the converter writes these 119 bytes, whatever the output path held before: the file
  header with the size field 54 and the pixel offset 118 (it was 54), the info header with
  the bit count 4 and every other field as in the input, the 64 bytes of the 16 palette
  entries in the order of the source, and the single byte 0x0F: black is palette index 0
  (high nibble), white is index 15 (low nibble).
\<close>

theorem convert_2x1_black_white:
  "read_headers mem_fh mem_ih bmp_2x1 =
     (header_2x1, info_2x1, \<lparr>remaining = [0, 0, 0, 0xFF, 0xFF, 0xFF, 0, 0], good = True\<rparr>) \<and>
   convert_bmp_24_to_4_depth mem_fh mem_ih
     \<lparr>input_file = Some bmp_2x1, output_file = old, output_openable = True\<rparr> =
   Some (None, \<lparr>input_file = Some bmp_2x1,
     output_file = Some
       ([0x42, 0x4D, 0x36, 0, 0, 0, 0, 0, 0, 0, 0x76, 0, 0, 0] @
        [0x28, 0, 0, 0, 2, 0, 0, 0, 1, 0, 0, 0, 1, 0, 4, 0, 0, 0, 0, 0, 8, 0, 0, 0,
         0x13, 0x0B, 0, 0, 0x13, 0x0B, 0, 0, 0, 0, 0, 0, 0, 0, 0, 0] @
        [0x00, 0x00, 0x00, 0x00,  0x00, 0x00, 0xFF, 0x00,  0x00, 0xA1, 0xFF, 0x00,
         0x9F, 0xA0, 0xFF, 0x00,  0x00, 0xFF, 0xFF, 0x00,  0x00, 0xA0, 0xA3, 0x00,
         0x00, 0xA1, 0x00, 0x00,  0x00, 0xFF, 0x00, 0x00,  0x9D, 0xFF, 0xA0, 0x00,
         0x9B, 0x00, 0x00, 0x00,  0xFF, 0x00, 0x00, 0x00,  0xFF, 0x00, 0xA2, 0x00,
         0xFF, 0x00, 0xFF, 0x00,  0xFF, 0xFF, 0x00, 0x00,  0x9F, 0xA1, 0xA2, 0x00,
         0xFF, 0xFF, 0xFF, 0x00] @
        [0x0F]),
     output_openable = True\<rparr>) \<and>
   update_headers header_2x1 info_2x1 =
     (header_2x1\<lparr>bf_size := 54, bf_off_bits := 118\<rparr>, info_2x1\<lparr>bi_bit_count := 4\<rparr>) \<and>
   find_closest_color \<lparr>t_blue = 0, t_green = 0, t_red = 0\<rparr> palette = 0 \<and>
   find_closest_color \<lparr>t_blue = 0xFF, t_green = 0xFF, t_red = 0xFF\<rparr> palette = 15 \<and>
   two_pixels (\<lparr>t_blue = 0, t_green = 0, t_red = 0\<rparr>,
               \<lparr>t_blue = 0xFF, t_green = 0xFF, t_red = 0xFF\<rparr>) = 0x0F"
proof -
  have out: "write_headers (header_2x1\<lparr>bf_size := 54, bf_off_bits := 118\<rparr>)
        (info_2x1\<lparr>bi_bit_count := 4\<rparr>) @ [0x0F] =
       ([0x42, 0x4D, 0x36, 0, 0, 0, 0, 0, 0, 0, 0x76, 0, 0, 0] @
        [0x28, 0, 0, 0, 2, 0, 0, 0, 1, 0, 0, 0, 1, 0, 4, 0, 0, 0, 0, 0, 8, 0, 0, 0,
         0x13, 0x0B, 0, 0, 0x13, 0x0B, 0, 0, 0, 0, 0, 0, 0, 0, 0, 0] @
        [0x00, 0x00, 0x00, 0x00,  0x00, 0x00, 0xFF, 0x00,  0x00, 0xA1, 0xFF, 0x00,
         0x9F, 0xA0, 0xFF, 0x00,  0x00, 0xFF, 0xFF, 0x00,  0x00, 0xA0, 0xA3, 0x00,
         0x00, 0xA1, 0x00, 0x00,  0x00, 0xFF, 0x00, 0x00,  0x9D, 0xFF, 0xA0, 0x00,
         0x9B, 0x00, 0x00, 0x00,  0xFF, 0x00, 0x00, 0x00,  0xFF, 0x00, 0xA2, 0x00,
         0xFF, 0x00, 0xFF, 0x00,  0xFF, 0xFF, 0x00, 0x00,  0x9F, 0xA1, 0xA2, 0x00,
         0xFF, 0xFF, 0xFF, 0x00] @
        [0x0F])"
    unfolding write_headers_def written_file_header_2x1 written_info_header_2x1
    by (simp only: palette_bytes_eq append_assoc)
  show ?thesis
    unfolding out [symmetric]
    by (simp add: read_headers_bmp_2x1 convert_bmp_2x1 update_headers_2x1
        closest_black closest_white two_pixels_def)
qed

text \<open>
  Claim C1 (the claim fails on the code). For the 2 by 1 bitmap the converter writes 119
  bytes, and the file size field it writes is 54, where the specification's formula gives
  122. For a width of 8 and a height of 1 the field is 58, again against 122: the division
  by 32 has already truncated when \<open>std::ceil\<close> is applied, and the 64 palette bytes
  are added to \<open>bf_off_bits\<close> but not to \<open>bf_size\<close>.
\<close>

theorem file_size_field_2x1:
  "convert_bmp_24_to_4_depth mem_fh mem_ih
     \<lparr>input_file = Some bmp_2x1, output_file = old, output_openable = True\<rparr> =
   Some (None, \<lparr>input_file = Some bmp_2x1,
     output_file = Some (write_headers (header_2x1\<lparr>bf_size := 54, bf_off_bits := 118\<rparr>)
                           (info_2x1\<lparr>bi_bit_count := 4\<rparr>) @ [0x0F]),
     output_openable = True\<rparr>) \<and>
   bf_size (file_header_of_bytes (write_headers (header_2x1\<lparr>bf_size := 54, bf_off_bits := 118\<rparr>)
                           (info_2x1\<lparr>bi_bit_count := 4\<rparr>) @ [0x0F])) = 54 \<and>
   length (write_headers (header_2x1\<lparr>bf_size := 54, bf_off_bits := 118\<rparr>)
                           (info_2x1\<lparr>bi_bit_count := 4\<rparr>) @ [0x0F]) = 119 \<and>
   spec_file_size 2 1 = 122 \<and>
   bf_size (fst (update_headers fh (ih\<lparr>bi_width := 8, bi_height := 1\<rparr>))) = 58 \<and>
   spec_file_size 8 1 = 122"
  by (simp add: convert_bmp_2x1 write_headers_def file_header_of_bytes_inverse
      length_bytes_of_file_header length_bytes_of_info_header length_palette_bytes
      spec_file_size_def update_headers_def pixel_array_size_def row_size_def target_bitcount_def
      sizeof_file_header_def sizeof_info_header_def)

text \<open>
  Claim C2 (the claim fails on the code). One run of the inner loop writes one byte per
  pixel pair and no padding: for the widths 1, 2, 7, 8, 9, 16, 1023 and 1024 it writes 1, 1,
  4, 4, 5, 8, 512 and 512 bytes, where the specification states 4, 4, 4, 4, 8, 8, 512 and 512.
  The two differ at the widths 1, 2 and 9.
\<close>

theorem row_bytes_unpadded:
  "map (\<lambda>w. map_option (\<lambda>st. length (snd st)) (convert_columns (of_nat w) 0 (s, [])))
     [1, 2, 7, 8, 9, 16, 1023, 1024] =
   map Some [1, 1, 4, 4, 5, 8, 512, 512] \<and>
   map spec_row_bytes [1, 2, 7, 8, 9, 16, 1023, 1024] = [4, 4, 4, 4, 8, 8, 512, 512]"
  using row_output_length [of 1 s "[]"] row_output_length [of 2 s "[]"]
    row_output_length [of 7 s "[]"] row_output_length [of 8 s "[]"]
    row_output_length [of 9 s "[]"] row_output_length [of 16 s "[]"]
    row_output_length [of 1023 s "[]"] row_output_length [of 1024 s "[]"]
  by (simp add: spec_row_bytes_def)



lemma upt_40: "[0..<40] = [0, 1, 2, 3, 4, 5, 6, 7, 8, 9, 10, 11, 12, 13, 14, 15, 16, 17, 18, 19, 20, 21, 22, 23, 24, 25, 26, 27, 28, 29, 30, 31, 32, 33, 34, 35, 36, 37, 38, 39]"
  by code_simp

lemma list_of_40:
  assumes "length b = 40"
  shows "b = [b ! 0, b ! 1, b ! 2, b ! 3, b ! 4, b ! 5, b ! 6, b ! 7, b ! 8, b ! 9, b ! 10, b ! 11, b ! 12, b ! 13, b ! 14, b ! 15, b ! 16, b ! 17, b ! 18, b ! 19, b ! 20, b ! 21, b ! 22, b ! 23, b ! 24, b ! 25, b ! 26, b ! 27, b ! 28, b ! 29, b ! 30, b ! 31, b ! 32, b ! 33, b ! 34, b ! 35, b ! 36, b ! 37, b ! 38, b ! 39]"
proof -
  have "map ((!) b) [0..<40] = b" using map_nth [of b] assms by simp
  then show ?thesis unfolding upt_40 by simp
qed

lemma info_header_bytes_frame:
  assumes "length b = 40"
  shows "bytes_of_info_header ((info_header_of_bytes b)\<lparr>bi_bit_count := 4\<rparr>) =
         take 14 b @ [4, 0] @ drop 16 b"
proof -
  have lhs: "bytes_of_info_header ((info_header_of_bytes b)\<lparr>bi_bit_count := 4\<rparr>) =
      [b ! 0, b ! 1, b ! 2, b ! 3, b ! 4, b ! 5, b ! 6, b ! 7, b ! 8, b ! 9, b ! 10, b ! 11, b ! 12, b ! 13, 4, 0, b ! 16, b ! 17, b ! 18, b ! 19, b ! 20, b ! 21, b ! 22, b ! 23, b ! 24, b ! 25, b ! 26, b ! 27, b ! 28, b ! 29, b ! 30, b ! 31, b ! 32, b ! 33, b ! 34, b ! 35, b ! 36, b ! 37, b ! 38, b ! 39]"
    by (simp add: bytes_of_info_header_def info_header_of_bytes_def bytes_of_u32_le
        bytes_of_u16_le) (simp add: bytes_of_u16_def)
  have rhs: "take 14 b @ [4, 0] @ drop 16 b = [b ! 0, b ! 1, b ! 2, b ! 3, b ! 4, b ! 5, b ! 6, b ! 7, b ! 8, b ! 9, b ! 10, b ! 11, b ! 12, b ! 13, 4, 0, b ! 16, b ! 17, b ! 18, b ! 19, b ! 20, b ! 21, b ! 22, b ! 23, b ! 24, b ! 25, b ! 26, b ! 27, b ! 28, b ! 29, b ! 30, b ! 31, b ! 32, b ! 33, b ! 34, b ! 35, b ! 36, b ! 37, b ! 38, b ! 39]"
    by (subst (1 2) list_of_40 [OF assms]) simp
  show ?thesis by (simp only: lhs rhs)
qed


lemma convert_rows_returns:
  assumes "0 \<le> sint (width :: 32 word)" and "0 \<le> sint (height :: 32 word)"
  shows "convert_rows (scast width) (scast height) 0 st =
         Some ((convert_pair ^^ (nat (sint height) * ((nat (sint width) + 1) div 2))) st)"
proof -
  have "convert_rows (of_nat (nat (sint width))) (of_nat (nat (sint height))) (of_nat 0) st =
        Some ((convert_pair ^^ ((nat (sint height) - 0) * ((nat (sint width) + 1) div 2))) st)"
    by (rule convert_rows_closed [OF _ sint_bound sint_bound]) simp
  then show ?thesis
    by (simp add: scast_nonneg [OF assms(1)] scast_nonneg [OF assms(2)])
qed

text \<open>
  Claim C8. For every accepted input of non-negative width and height the conversion
  returns, and of the info header only the bit count has changed: the header the converter
  computes is the one it read with \<open>bi_bit_count\<close> set to 4 (it was 24), bytes 14 to 53 of
  the output are the memory image of that header, and reading them back gives the ten
  other fields as they were read, the image size \<open>bi_size_image\<close> among them. When the
  input holds both headers, these output bytes are the input's own bytes 14 to 27 and 30 to
  53, with 04 00 in between.
\<close>

theorem info_header_frame:
  assumes "input_file fs = Some content" and "output_openable fs"
    and "read_headers mem_fh mem_ih content = (fh, ih, s)"
    and "bf_type fh = BMP_SIGNATURE" and "bi_bit_count ih = 24"
    and "0 \<le> sint (bi_width ih)" and "0 \<le> sint (bi_height ih)"
  shows "snd (update_headers fh ih) = ih\<lparr>bi_bit_count := 4\<rparr> \<and>
         (\<exists>fs' out. convert_bmp_24_to_4_depth mem_fh mem_ih fs = Some (None, fs') \<and>
            output_file fs' = Some out \<and>
            take 40 (drop 14 out) = bytes_of_info_header (ih\<lparr>bi_bit_count := 4\<rparr>) \<and>
            info_header_of_bytes (take 40 (drop 14 out)) = ih\<lparr>bi_bit_count := 4\<rparr> \<and>
            bi_size_image (info_header_of_bytes (take 40 (drop 14 out))) = bi_size_image ih \<and>
            (54 \<le> length content \<longrightarrow>
               take 14 (drop 14 out) = take 14 (drop 14 content) \<and>
               take 2 (drop 28 out) = [4, 0] \<and>
               take 24 (drop 30 out) = take 24 (drop 30 content)))"
proof -
  let ?fh = "fst (update_headers fh ih)" and ?ih = "snd (update_headers fh ih)"
  let ?n = "nat (sint (bi_height ih)) * ((nat (sint (bi_width ih)) + 1) div 2)"
  define out where "out = snd ((convert_pair ^^ ?n) (s, write_headers ?fh ?ih))"
  have run: "convert_rows (scast (bi_width ih)) (scast (bi_height ih)) 0
              (s, write_headers ?fh ?ih) = Some ((convert_pair ^^ ?n) (s, write_headers ?fh ?ih))"
    by (rule convert_rows_returns [OF assms(6,7)])
  have conv: "convert_bmp_24_to_4_depth mem_fh mem_ih fs =
      Some (None, fs\<lparr>output_file := Some out\<rparr>)"
    by (simp only: convert_accepted [OF assms(1-5)] run option.map out_def)
  from convert_rows_prefix [OF run] obtain d where d: "out = write_headers ?fh ?ih @ d"
    unfolding out_def by auto
  have ih: "?ih = ih\<lparr>bi_bit_count := 4\<rparr>" by (rule update_headers_info)
  have bytes: "take 40 (drop 14 out) = bytes_of_info_header (ih\<lparr>bi_bit_count := 4\<rparr>)"
    by (simp add: d write_headers_def ih length_bytes_of_file_header length_bytes_of_info_header)
  have rt: "info_header_of_bytes (take 40 (drop 14 out)) = ih\<lparr>bi_bit_count := 4\<rparr>"
    using info_header_of_bytes_inverse [of "ih\<lparr>bi_bit_count := 4\<rparr>" "[]"]
    by (simp add: bytes)
  have frame: "take 14 (drop 14 out) = take 14 (drop 14 content) \<and>
      take 2 (drop 28 out) = [4, 0] \<and>
      take 24 (drop 30 out) = take 24 (drop 30 content)" if len: "54 \<le> length content"
  proof -
    let ?b = "take 40 (drop 14 content)"
    have lb: "length ?b = 40" using len by simp
    have "ih = info_header_of_bytes ?b"
      using read_headers_enough [OF len, of mem_fh mem_ih] assms(3) by simp
    then have img: "bytes_of_info_header (ih\<lparr>bi_bit_count := 4\<rparr>) =
        take 14 ?b @ [4, 0] @ drop 16 ?b"
      using info_header_bytes_frame [OF lb] by simp
    have o14: "drop 14 out = take 14 ?b @ [4, 0] @ drop 16 ?b @ palette_bytes @ d"
      by (simp add: d write_headers_def ih img length_bytes_of_file_header)
    have l14: "length (take 14 ?b) = 14" using len by simp
    have d16: "drop 16 ?b = take 24 (drop 30 content)" by (simp add: drop_take)
    have l24: "length (take 24 (drop 30 content)) = 24" using len by simp
    have a: "take 14 (drop 14 out) = take 14 (drop 14 content)"
      using l14 by (simp add: o14)
    have "drop 28 out = drop 14 (drop 14 out)" by simp
    also have "\<dots> = [4, 0] @ drop 16 ?b @ palette_bytes @ d"
      unfolding o14 using l14 by simp
    finally have d28: "drop 28 out = [4, 0] @ take 24 (drop 30 content) @ palette_bytes @ d"
      by (simp only: d16)
    have b: "take 2 (drop 28 out) = [4, 0]" by (simp add: d28)
    have "drop 30 out = drop 2 (drop 28 out)" by simp
    also have "\<dots> = take 24 (drop 30 content) @ palette_bytes @ d"
      unfolding d28 by simp
    finally have c: "take 24 (drop 30 out) = take 24 (drop 30 content)"
      using l24 by simp
    from a b c show ?thesis by simp
  qed
  show ?thesis
    using ih conv bytes rt frame by simp
qed

theorem info_header_frame_witness:
  "convert_bmp_24_to_4_depth zero_mem zero_mem
     \<lparr>input_file = Some bmp_2x1, output_file = None, output_openable = True\<rparr> =
   Some (None, \<lparr>input_file = Some bmp_2x1,
     output_file = Some (write_headers (header_2x1\<lparr>bf_size := 54, bf_off_bits := 118\<rparr>)
                           (info_2x1\<lparr>bi_bit_count := 4\<rparr>) @ [0x0F]),
     output_openable = True\<rparr>) \<and>
   info_header_of_bytes (take 40 (drop 14
     (write_headers (header_2x1\<lparr>bf_size := 54, bf_off_bits := 118\<rparr>)
        (info_2x1\<lparr>bi_bit_count := 4\<rparr>) @ [0x0F]))) = info_2x1\<lparr>bi_bit_count := 4\<rparr> \<and>
   take 14 (drop 14
     (write_headers (header_2x1\<lparr>bf_size := 54, bf_off_bits := 118\<rparr>)
        (info_2x1\<lparr>bi_bit_count := 4\<rparr>) @ [0x0F])) = take 14 (drop 14 bmp_2x1) \<and>
   take 2 (drop 28
     (write_headers (header_2x1\<lparr>bf_size := 54, bf_off_bits := 118\<rparr>)
        (info_2x1\<lparr>bi_bit_count := 4\<rparr>) @ [0x0F])) = [4, 0] \<and>
   take 24 (drop 30
     (write_headers (header_2x1\<lparr>bf_size := 54, bf_off_bits := 118\<rparr>)
        (info_2x1\<lparr>bi_bit_count := 4\<rparr>) @ [0x0F])) = take 24 (drop 30 bmp_2x1) \<and>
   bi_size_image info_2x1 = 8"
proof -
  let ?fs = "\<lparr>input_file = Some bmp_2x1, output_file = None, output_openable = True\<rparr>"
  let ?out = "write_headers (header_2x1\<lparr>bf_size := 54, bf_off_bits := 118\<rparr>)
                (info_2x1\<lparr>bi_bit_count := 4\<rparr>) @ [0x0F]"
  have sig: "bf_type header_2x1 = BMP_SIGNATURE" and depth: "bi_bit_count info_2x1 = 24"
    and w: "0 \<le> sint (bi_width info_2x1)" and h: "0 \<le> sint (bi_height info_2x1)"
    by (simp_all add: header_2x1_def info_2x1_def BMP_SIGNATURE_def)
  have len: "54 \<le> length bmp_2x1" by (simp add: bmp_2x1_def)
  have run: "convert_bmp_24_to_4_depth zero_mem zero_mem ?fs =
      Some (None, ?fs\<lparr>output_file := Some ?out\<rparr>)"
    using convert_bmp_2x1 [of zero_mem zero_mem None] by simp
  from info_header_frame [of ?fs bmp_2x1 zero_mem zero_mem header_2x1 info_2x1,
      OF _ _ read_headers_bmp_2x1 sig depth w h]
  obtain fs' out where a: "convert_bmp_24_to_4_depth zero_mem zero_mem ?fs = Some (None, fs')"
    and b: "output_file fs' = Some out"
    and c: "info_header_of_bytes (take 40 (drop 14 out)) = info_2x1\<lparr>bi_bit_count := 4\<rparr>"
    and e: "54 \<le> length bmp_2x1 \<longrightarrow>
               take 14 (drop 14 out) = take 14 (drop 14 bmp_2x1) \<and>
               take 2 (drop 28 out) = [4, 0] \<and>
               take 24 (drop 30 out) = take 24 (drop 30 bmp_2x1)"
    by auto
  from a run have "fs' = ?fs\<lparr>output_file := Some ?out\<rparr>" by simp
  with b have "out = ?out" by simp
  with c e len run show ?thesis by (simp add: info_2x1_def)
qed

section \<open>Rows and padding\<close>

lemma convert_columns_row:
  assumes "0 \<le> sint (width :: 32 word)" and "good s"
    and "converter_row_bytes (nat (sint width)) \<le> length (remaining s)"
  shows "convert_columns (scast width) 0 (s, out) =
           Some (s\<lparr>remaining := drop (converter_row_bytes (nat (sint width))) (remaining s)\<rparr>,
                 out @ packed_pairs ((nat (sint width) + 1) div 2) (remaining s))"
proof -
  let ?W = "nat (sint width)"
  have "convert_columns (of_nat ?W) (of_nat 0) (s, out) =
        Some ((convert_pair ^^ ((?W + 1 - 0) div 2)) (s, out))"
    by (rule convert_columns_closed [OF _ sint_bound]) simp
  then have loop: "convert_columns (scast width) 0 (s, out) =
      Some ((convert_pair ^^ ((?W + 1) div 2)) (s, out))"
    by (simp add: scast_nonneg [OF assms(1)])
  have "(convert_pair ^^ ((?W + 1) div 2)) (s, out) =
      (s\<lparr>remaining := drop (6 * ((?W + 1) div 2)) (remaining s)\<rparr>,
       out @ packed_pairs ((?W + 1) div 2) (remaining s))"
    using assms(3) by (intro convert_pair_funpow_enough [OF assms(2)])
      (simp only: converter_row_bytes_def)
  with loop show ?thesis by (simp only: converter_row_bytes_def)
qed

lemma map_zero_mem: "map zero_mem xs = replicate (length xs) 0"
  by (induction xs) (simp_all add: zero_mem_def)

lemma convert_pair_any:
  assumes "good s \<or> remaining s = []"
  shows "\<exists>s'. convert_pair (s, out) =
           (s', out @ [two_pixels (pixel_pair_of_bytes (take 6 (remaining s @ replicate 6 0)))]) \<and>
         (good s' \<or> remaining s' = []) \<and> remaining s' = drop 6 (remaining s)"
proof (cases "good s")
  case False
  with assms have "remaining s = []" by simp
  with False show ?thesis
    by (simp add: convert_pair_def stream_read_def sizeof_pixel_pair_def map_zero_mem)
next
  case True
  show ?thesis
  proof (cases "6 \<le> length (remaining s)")
    case True
    with \<open>good s\<close> show ?thesis
      by (simp add: convert_pair_def stream_read_def sizeof_pixel_pair_def)
  next
    case False
    with \<open>good s\<close> show ?thesis
      by (simp add: convert_pair_def stream_read_def sizeof_pixel_pair_def map_zero_mem
          min_def)
  qed
qed

lemma convert_pair_funpow_any:
  assumes "good s \<or> remaining s = []"
  shows "\<exists>s'. (convert_pair ^^ n) (s, out) = (s', out @ read_pairs n (remaining s)) \<and>
         (good s' \<or> remaining s' = []) \<and> remaining s' = drop (6 * n) (remaining s)"
proof (induction n)
  case 0
  with assms show ?case by (simp add: read_pairs_def)
next
  case (Suc n)
  then obtain s1 where st: "(convert_pair ^^ n) (s, out) = (s1, out @ read_pairs n (remaining s))"
    and inv: "good s1 \<or> remaining s1 = []" and rem: "remaining s1 = drop (6 * n) (remaining s)"
    by auto
  from convert_pair_any [OF inv, of "out @ read_pairs n (remaining s)"]
  obtain s2 where step: "convert_pair (s1, out @ read_pairs n (remaining s)) =
      (s2, (out @ read_pairs n (remaining s)) @
           [two_pixels (pixel_pair_of_bytes (take 6 (remaining s1 @ replicate 6 0)))])"
    and inv2: "good s2 \<or> remaining s2 = []" and rem2: "remaining s2 = drop 6 (remaining s1)"
    by auto
  have "(convert_pair ^^ Suc n) (s, out) = convert_pair (s1, out @ read_pairs n (remaining s))"
    by (simp only: funpow.simps o_apply st)
  also have "\<dots> = (s2, out @ read_pairs (Suc n) (remaining s))"
    by (simp only: step) (simp add: rem read_pairs_def)
  finally have "(convert_pair ^^ Suc n) (s, out) = (s2, out @ read_pairs (Suc n) (remaining s))" .
  moreover have "remaining s2 = drop (6 * Suc n) (remaining s)"
    by (simp add: rem2 rem add.commute)
  ultimately show ?case using inv2 by blast
qed

lemma read_pairs_add:
  "read_pairs (a + b) bs = read_pairs a bs @ read_pairs b (drop (6 * a) bs)"
proof -
  have 1: "[0..<a + b] = [0..<a] @ [a..<a + b]" by (rule upt_add_eq_append) simp
  have 2: "[a..<a + b] = map (\<lambda>k. k + a) [0..<b]" by (simp only: map_add_upt add.commute [of a b])
  show ?thesis
    unfolding read_pairs_def 1 2 by (simp add: o_def distrib_left)
qed

lemma read_pairs_rows:
  "read_pairs (h * m) bs = concat (map (\<lambda>r. read_pairs m (drop (r * (6 * m)) bs)) [0..<h])"
proof (induction h)
  case 0
  then show ?case by (simp add: read_pairs_def)
next
  case (Suc h)
  have e: "6 * (h * m) = h * (6 * m)" by simp
  have "read_pairs (Suc h * m) bs = read_pairs (h * m + m) bs" by (simp add: add.commute)
  also have "\<dots> = read_pairs (h * m) bs @ read_pairs m (drop (h * (6 * m)) bs)"
    by (simp only: read_pairs_add e)
  finally show ?case by (simp only: Suc.IH upt_Suc_append [OF le0] map_append concat_append
        list.map concat.simps append_Nil2)
qed

lemma read_headers_stream:
  "\<exists>fh ih s. read_headers mem_fh mem_ih content = (fh, ih, s) \<and>
     (good s \<or> remaining s = []) \<and> remaining s = drop 54 content"
proof (cases "14 \<le> length content")
  case False
  then show ?thesis
    by (simp add: read_headers_def stream_read_def sizeof_file_header_def sizeof_info_header_def)
next
  case True
  show ?thesis
  proof (cases "54 \<le> length content")
    case True
    then show ?thesis by (simp add: read_headers_enough)
  next
    case False
    with \<open>14 \<le> length content\<close> show ?thesis
      by (auto simp add: read_headers_def stream_read_def sizeof_file_header_def
          sizeof_info_header_def)
  qed
qed


lemma convert_columns_any_stream:
  assumes "0 \<le> sint (width :: 32 word)" and "good s \<or> remaining s = []"
  shows "\<exists>s'. convert_columns (scast width) 0 (s, out) =
           Some (s', out @ read_pairs ((nat (sint width) + 1) div 2) (remaining s)) \<and>
         remaining s' = drop (converter_row_bytes (nat (sint width))) (remaining s)"
proof -
  let ?W = "nat (sint width)"
  have "convert_columns (of_nat ?W) (of_nat 0) (s, out) =
        Some ((convert_pair ^^ ((?W + 1 - 0) div 2)) (s, out))"
    by (rule convert_columns_closed [OF _ sint_bound]) simp
  then have loop: "convert_columns (scast width) 0 (s, out) =
      Some ((convert_pair ^^ ((?W + 1) div 2)) (s, out))"
    by (simp add: scast_nonneg [OF assms(1)])
  from convert_pair_funpow_any [OF assms(2), of "(?W + 1) div 2" out]
  obtain s' where a: "(convert_pair ^^ ((?W + 1) div 2)) (s, out) =
      (s', out @ read_pairs ((?W + 1) div 2) (remaining s))"
    and b: "remaining s' = drop (6 * ((?W + 1) div 2)) (remaining s)"
    by auto
  have "convert_columns (scast width) 0 (s, out) =
           Some (s', out @ read_pairs ((?W + 1) div 2) (remaining s)) \<and>
         remaining s' = drop (converter_row_bytes ?W) (remaining s)"
    by (simp only: loop a b converter_row_bytes_def simp_thms)
  then show ?thesis by (rule exI)
qed

text \<open>
  Where the converter reads row \<open>r\<close> and where the input stores it agree only for
  the first row or when \<open>W mod 4\<close> is 0 or 3; in the latter case the pixel read past the
  end of a row is exactly that row's padding.
\<close>

lemma row_bytes_mod4:
  "converter_row_bytes (4 * k) = 12 * k" "input_row_bytes (4 * k) = 12 * k"
  "converter_row_bytes (4 * k + 1) = 12 * k + 6" "input_row_bytes (4 * k + 1) = 12 * k + 4"
  "converter_row_bytes (4 * k + 2) = 12 * k + 6" "input_row_bytes (4 * k + 2) = 12 * k + 8"
  "converter_row_bytes (4 * k + 3) = 12 * k + 12" "input_row_bytes (4 * k + 3) = 12 * k + 12"
  by (simp_all only: converter_row_bytes_def input_row_bytes_def) presburger+

lemma row_bytes_agree_iff:
  "converter_row_bytes W = input_row_bytes W \<longleftrightarrow> W mod 4 = 0 \<or> W mod 4 = 3"
proof -
  define k where "k = W div 4"
  have W: "W = 4 * k + W mod 4" by (simp add: k_def)
  have "W mod 4 < 4" by simp
  then consider "W mod 4 = 0" | "W mod 4 = 1" | "W mod 4 = 2" | "W mod 4 = 3" by linarith
  then show ?thesis
  proof cases
    case 1
    then have e: "4 * k = W" using W by simp
    have "converter_row_bytes W = 12 * k" "input_row_bytes W = 12 * k"
      using row_bytes_mod4(1,2) [of k] by (simp_all only: e)
    then show ?thesis using 1 by simp
  next
    case 2
    then have e: "4 * k + 1 = W" using W by simp
    have "converter_row_bytes W = 12 * k + 6" "input_row_bytes W = 12 * k + 4"
      using row_bytes_mod4(3,4) [of k] by (simp_all only: e)
    then show ?thesis using 2 by simp
  next
    case 3
    then have e: "4 * k + 2 = W" using W by simp
    have "converter_row_bytes W = 12 * k + 6" "input_row_bytes W = 12 * k + 8"
      using row_bytes_mod4(5,6) [of k] by (simp_all only: e)
    then show ?thesis using 3 by simp
  next
    case 4
    then have e: "4 * k + 3 = W" using W by simp
    have "converter_row_bytes W = 12 * k + 12" "input_row_bytes W = 12 * k + 12"
      using row_bytes_mod4(7,8) [of k] by (simp_all only: e)
    then show ?thesis using 4 by simp
  qed
qed

lemma row_offsets_agree_iff:
  "54 + r * converter_row_bytes W = 54 + r * input_row_bytes W \<longleftrightarrow>
   r = 0 \<or> W mod 4 = 0 \<or> W mod 4 = 3"
  using row_bytes_agree_iff [of W] by auto

lemma read_headers_bmp_1x2:
  "read_headers mem_fh mem_ih bmp_1x2 =
     (header_1x2, info_1x2, \<lparr>remaining = [0xFF, 0xFF, 0xFF, 0, 0, 0, 0, 0], good = True\<rparr>)"
  by (simp add: read_headers_def stream_read_def sizeof_file_header_def sizeof_info_header_def
      bmp_1x2_def file_header_of_bytes_def info_header_of_bytes_def u16_le_def u32_le_def
      header_1x2_def info_1x2_def)

lemma convert_columns_once:
  "convert_columns 1 0 st = Some (convert_pair st)"
  using convert_columns_closed [of 0 1 st] by simp

lemma two_pixels_white_black:
  "two_pixels (\<lparr>t_blue = 0xFF, t_green = 0xFF, t_red = 0xFF\<rparr>,
               \<lparr>t_blue = 0, t_green = 0, t_red = 0\<rparr>) = 0xF0"
  by (simp add: two_pixels_def closest_black closest_white)

lemma two_pixels_black_black:
  "two_pixels (\<lparr>t_blue = 0, t_green = 0, t_red = 0\<rparr>,
               \<lparr>t_blue = 0, t_green = 0, t_red = 0\<rparr>) = 0"
  by (simp add: two_pixels_def closest_black)

lemma closest_red: "find_closest_color \<lparr>t_blue = 0, t_green = 0, t_red = 0xFF\<rparr> palette = 1"
  by (simp add: find_closest_color_def min_element_def palette_def quad_def
      distance_to_color_iff sq_dist_def)

lemma two_pixels_black_white:
  "two_pixels (\<lparr>t_blue = 0, t_green = 0, t_red = 0\<rparr>,
               \<lparr>t_blue = 0xFF, t_green = 0xFF, t_red = 0xFF\<rparr>) = 0x0F"
  by (simp add: two_pixels_def closest_black closest_white)

lemma two_pixels_red_black:
  "two_pixels (\<lparr>t_blue = 0, t_green = 0, t_red = 0xFF\<rparr>,
               \<lparr>t_blue = 0, t_green = 0, t_red = 0\<rparr>) = 0x10"
  by (simp add: two_pixels_def closest_black closest_red)

text \<open>
  Claim C10 as stated fails on two accepted inputs. On the 1 by 2 bitmap the first row
  takes six bytes (its pixel, its padding byte, the pixel of the second row and one byte
  more), so that the second row finds two bytes where it asks for six: it takes those two
  and the stream fails. On the 3 by 2 bitmap \<open>3 * W\<close> is not a multiple of 4, yet after
  the first row the stream stands exactly at the first byte of the stored second row: the
  pixel read past the end of the first row was that row's own padding (it is packed as
  black into the low nibble of 0x10), and no padding of the first row is left for the
  second to read.
\<close>

theorem rows_consumption_counterexample:
  "read_headers zero_mem zero_mem bmp_1x2 =
     (header_1x2, info_1x2, \<lparr>remaining = drop 54 bmp_1x2, good = True\<rparr>) \<and>
   bf_type header_1x2 = BMP_SIGNATURE \<and> bi_bit_count info_1x2 = 24 \<and>
   bi_width info_1x2 = 1 \<and> bi_height info_1x2 = 2 \<and>
   convert_columns 1 0 (\<lparr>remaining = drop 54 bmp_1x2, good = True\<rparr>, []) =
     Some (\<lparr>remaining = [0, 0], good = True\<rparr>, [0xF0]) \<and>
   convert_columns 1 0 (\<lparr>remaining = [0, 0], good = True\<rparr>, [0xF0]) =
     Some (\<lparr>remaining = [], good = False\<rparr>, [0xF0, 0]) \<and>
   converter_row_bytes 1 = 6 \<and>
   (3 * 3) mod 4 \<noteq> (0 :: nat) \<and>
   converter_row_bytes 3 = 12 \<and> input_row_bytes 3 = 12 \<and>
   convert_columns 3 0 (\<lparr>remaining = drop 54 bmp_3x2, good = True\<rparr>, []) =
     Some (\<lparr>remaining = drop (54 + input_row_bytes 3) bmp_3x2, good = True\<rparr>, [0x0F, 0x10])"
proof -
  have d: "drop 54 bmp_1x2 = [0xFF, 0xFF, 0xFF, 0, 0, 0, 0, 0]" by (simp add: bmp_1x2_def)
  have hdr: "bf_type header_1x2 = BMP_SIGNATURE" "bi_bit_count info_1x2 = 24"
    "bi_width info_1x2 = 1" "bi_height info_1x2 = 2"
    by (simp_all add: header_1x2_def info_1x2_def BMP_SIGNATURE_def)
  have r0: "convert_columns 1 0 (\<lparr>remaining = drop 54 bmp_1x2, good = True\<rparr>, []) =
     Some (\<lparr>remaining = [0, 0], good = True\<rparr>, [0xF0])"
    by (simp add: d convert_columns_once convert_pair_def stream_read_def sizeof_pixel_pair_def
        pixel_pair_of_bytes_def two_pixels_white_black)
  have r1: "convert_columns 1 0 (\<lparr>remaining = [0, 0], good = True\<rparr>, [0xF0]) =
     Some (\<lparr>remaining = [], good = False\<rparr>, [0xF0, 0])"
    by (simp add: convert_columns_once convert_pair_def stream_read_def sizeof_pixel_pair_def
        pixel_pair_of_bytes_def map_zero_mem nth_append two_pixels_black_black)
  have sizes: "converter_row_bytes 1 = 6" "converter_row_bytes 3 = 12" "input_row_bytes 3 = 12"
    by (simp_all add: converter_row_bytes_def input_row_bytes_def)
  have "convert_columns (scast (3 :: 32 word)) 0 (\<lparr>remaining = drop 54 bmp_3x2, good = True\<rparr>, []) =
      Some (\<lparr>remaining = drop 54 bmp_3x2, good = True\<rparr>
              \<lparr>remaining := drop (converter_row_bytes (nat (sint (3 :: 32 word))))
                 (remaining \<lparr>remaining = drop 54 bmp_3x2, good = True\<rparr>)\<rparr>,
            [] @ packed_pairs ((nat (sint (3 :: 32 word)) + 1) div 2)
                  (remaining \<lparr>remaining = drop 54 bmp_3x2, good = True\<rparr>))"
    by (rule convert_columns_row) (simp_all add: converter_row_bytes_def bmp_3x2_def)
  moreover have "packed_pairs 2 (drop 54 bmp_3x2) = [0x0F, 0x10]"
    by (simp add: packed_pairs_def numeral_2_eq_2 bmp_3x2_def pixel_pair_of_bytes_def
        two_pixels_black_white two_pixels_red_black)
  ultimately have r3: "convert_columns 3 0 (\<lparr>remaining = drop 54 bmp_3x2, good = True\<rparr>, []) =
     Some (\<lparr>remaining = drop (54 + input_row_bytes 3) bmp_3x2, good = True\<rparr>, [0x0F, 0x10])"
    by (simp add: sizes add.commute)
  show ?thesis
    using hdr r0 r1 sizes r3 by (simp add: read_headers_bmp_1x2 d)
qed

text \<open>
  Claim C10, amended. For every accepted input of non-negative width \<open>W\<close> and height
  \<open>H\<close>, each run of the inner loop makes \<open>ceil(W / 2)\<close> six-byte reads and leaves the
  stream \<open>6 * ceil(W / 2)\<close> bytes further, or at its end when fewer are left; bytes the
  stream no longer holds read as zero. The rows are read one after the other from offset 54
  on, with no padding skipped: the output is the headers and palette followed, for each row
  \<open>r\<close>, by the pairs packed from the input bytes that start at offset
  \<open>54 + r * 6 * ceil(W / 2)\<close>. For a row \<open>r \<ge> 1\<close> this is the offset
  \<open>54 + r * 4 * ceil(3 * W / 4)\<close> at which the input stores the row exactly when
  \<open>W mod 4\<close> is 0 or 3; when it is 1 or 2 the row is read from elsewhere.
\<close>

theorem rows_read_in_pairs:
  assumes "input_file fs = Some content" and "output_openable fs"
    and "read_headers mem_fh mem_ih content = (fh, ih, s)"
    and "bf_type fh = BMP_SIGNATURE" and "bi_bit_count ih = 24"
    and "0 \<le> sint (bi_width ih)" and "0 \<le> sint (bi_height ih)"
    and "W = nat (sint (bi_width ih))" and "H = nat (sint (bi_height ih))"
  shows "(\<forall>s0 out. good s0 \<or> remaining s0 = [] \<longrightarrow>
            (\<exists>s'. convert_columns (scast (bi_width ih)) 0 (s0, out) =
                     Some (s', out @ read_pairs ((W + 1) div 2) (remaining s0)) \<and>
                   remaining s' = drop (converter_row_bytes W) (remaining s0))) \<and>
         convert_bmp_24_to_4_depth mem_fh mem_ih fs =
           Some (None, fs\<lparr>output_file := Some
             (write_headers (fst (update_headers fh ih)) (snd (update_headers fh ih)) @
              concat (map (\<lambda>r. read_pairs ((W + 1) div 2)
                                  (drop (54 + r * converter_row_bytes W) content)) [0..<H]))\<rparr>) \<and>
         (\<forall>r. 1 \<le> r \<longrightarrow>
            (54 + r * converter_row_bytes W = 54 + r * input_row_bytes W) =
            (W mod 4 = 0 \<or> W mod 4 = 3))"
proof -
  let ?m = "(W + 1) div 2"
  let ?hdr = "write_headers (fst (update_headers fh ih)) (snd (update_headers fh ih))"
  from read_headers_stream [of mem_fh mem_ih content] assms(3)
  have inv: "good s \<or> remaining s = []" and rem: "remaining s = drop 54 content"
    by auto
  have rows: "convert_rows (scast (bi_width ih)) (scast (bi_height ih)) 0 (s, ?hdr) =
      Some ((convert_pair ^^ (H * ?m)) (s, ?hdr))"
    unfolding assms(8,9) by (rule convert_rows_returns [OF assms(6,7)])
  from convert_pair_funpow_any [OF inv, of "H * ?m" ?hdr]
  obtain s' where fin: "(convert_pair ^^ (H * ?m)) (s, ?hdr) =
      (s', ?hdr @ read_pairs (H * ?m) (remaining s))"
    by auto
  have "read_pairs (H * ?m) (remaining s) =
      concat (map (\<lambda>r. read_pairs ?m (drop (r * (6 * ?m)) (drop 54 content))) [0..<H])"
    by (simp only: read_pairs_rows rem)
  also have "\<dots> = concat (map (\<lambda>r. read_pairs ?m
      (drop (54 + r * converter_row_bytes W) content)) [0..<H])"
    by (simp add: converter_row_bytes_def add.commute)
  finally have img: "read_pairs (H * ?m) (remaining s) =
      concat (map (\<lambda>r. read_pairs ?m (drop (54 + r * converter_row_bytes W) content)) [0..<H])" .
  have whole: "convert_bmp_24_to_4_depth mem_fh mem_ih fs =
      Some (None, fs\<lparr>output_file := Some (?hdr @
        concat (map (\<lambda>r. read_pairs ?m (drop (54 + r * converter_row_bytes W) content))
          [0..<H]))\<rparr>)"
    by (simp only: convert_accepted [OF assms(1-5)] rows fin option.map snd_conv img)
  have row: "\<forall>s0 out. good s0 \<or> remaining s0 = [] \<longrightarrow>
            (\<exists>s'. convert_columns (scast (bi_width ih)) 0 (s0, out) =
                     Some (s', out @ read_pairs ?m (remaining s0)) \<and>
                   remaining s' = drop (converter_row_bytes W) (remaining s0))"
  proof (intro allI impI)
    fix s0 :: istream and out :: "byte list"
    assume "good s0 \<or> remaining s0 = []"
    from convert_columns_any_stream [OF assms(6) this, of out]
    show "\<exists>s'. convert_columns (scast (bi_width ih)) 0 (s0, out) =
                     Some (s', out @ read_pairs ?m (remaining s0)) \<and>
                   remaining s' = drop (converter_row_bytes W) (remaining s0)"
      unfolding assms(8) .
  qed
  have off: "\<forall>r. 1 \<le> r \<longrightarrow>
            (54 + r * converter_row_bytes W = 54 + r * input_row_bytes W) =
            (W mod 4 = 0 \<or> W mod 4 = 3)"
  proof (intro allI impI)
    fix r :: nat
    assume "1 \<le> r"
    then have "r \<noteq> 0" by simp
    then show "(54 + r * converter_row_bytes W = 54 + r * input_row_bytes W) =
            (W mod 4 = 0 \<or> W mod 4 = 3)"
      using row_offsets_agree_iff [of r W] by simp
  qed
  show ?thesis by (rule conjI [OF row conjI [OF whole off]])
qed

text \<open>
  On the 1 by 2 bitmap the second output byte packs the two bytes left in the stream and
  four zero bytes, and the second row is read from offset 60, not from offset 58 where it
  is stored.
\<close>

theorem rows_read_in_pairs_witness:
  "convert_bmp_24_to_4_depth zero_mem zero_mem
     \<lparr>input_file = Some bmp_1x2, output_file = None, output_openable = True\<rparr> =
   Some (None, \<lparr>input_file = Some bmp_1x2,
     output_file = Some (write_headers (fst (update_headers header_1x2 info_1x2))
                           (snd (update_headers header_1x2 info_1x2)) @ [0xF0, 0]),
     output_openable = True\<rparr>) \<and>
   converter_row_bytes 1 = 6 \<and> input_row_bytes 1 = 4 \<and>
   54 + 1 * converter_row_bytes 1 \<noteq> 54 + 1 * input_row_bytes 1"
proof -
  let ?fs = "\<lparr>input_file = Some bmp_1x2, output_file = None, output_openable = True\<rparr>"
  have sig: "bf_type header_1x2 = BMP_SIGNATURE" and depth: "bi_bit_count info_1x2 = 24"
    and w: "0 \<le> sint (bi_width info_1x2)" "1 = nat (sint (bi_width info_1x2))"
    and h: "0 \<le> sint (bi_height info_1x2)" "2 = nat (sint (bi_height info_1x2))"
    by (simp_all add: header_1x2_def info_1x2_def BMP_SIGNATURE_def)
  have rs: "[0..<2] = [0, 1]" by (simp add: numeral_2_eq_2)
  have pairs: "concat (map (\<lambda>r. read_pairs ((1 + 1) div 2)
                                  (drop (54 + r * converter_row_bytes 1) bmp_1x2)) [0..<2]) =
      [0xF0, 0]"
    by (simp add: rs read_pairs_def converter_row_bytes_def bmp_1x2_def pixel_pair_of_bytes_def
        nth_append two_pixels_white_black two_pixels_black_black)
  have f: "input_file ?fs = Some bmp_1x2" "output_openable ?fs" by simp_all
  note th = rows_read_in_pairs
    [of ?fs bmp_1x2 zero_mem zero_mem header_1x2 info_1x2 _ 1 2,
      OF f read_headers_bmp_1x2 sig depth w(1) h(1) w(2) h(2)]
  have "convert_bmp_24_to_4_depth zero_mem zero_mem ?fs =
      Some (None, ?fs\<lparr>output_file := Some
             (write_headers (fst (update_headers header_1x2 info_1x2))
                (snd (update_headers header_1x2 info_1x2)) @ [0xF0, 0])\<rparr>)"
    using th [THEN conjunct2, THEN conjunct1] by (simp only: pairs)
  moreover have "54 + 1 * converter_row_bytes 1 \<noteq> 54 + 1 * input_row_bytes 1"
    using th [THEN conjunct2, THEN conjunct2, rule_format, of 1] by (simp del: One_nat_def)
  ultimately show ?thesis
    by (simp add: converter_row_bytes_def input_row_bytes_def)
qed

end
